theory Spec2Isabelle
  imports Complex_Main "HOL-Library.AList"
begin

section \<open>JavaScript strings\<close>

text \<open>
  A JavaScript string is a sequence of UTF-16 code units; a code unit is modelled by its
  number. The patterns of the program hold code units beyond Latin-1 (the glyph
  U+25C7) and its white space test covers the Unicode space separators, so 8-bit
  characters would not do. \<open>js\<close> turns an ASCII literal into code units.
\<close>

type_synonym jsstring = "nat list"

definition js :: "string \<Rightarrow> jsstring" where
  "js s = map of_char s"

text \<open>
  White space as \<open>String.prototype.trim\<close> and the pattern escape \<open>\s\<close> read it:
  the WhiteSpace and LineTerminator productions of ECMAScript.
\<close>

definition isSpace :: "nat \<Rightarrow> bool" where
  "isSpace c \<longleftrightarrow>
     (9 \<le> c \<and> c \<le> 13) \<or> c = 32 \<or> c = 160 \<or> c = 5760 \<or> (8192 \<le> c \<and> c \<le> 8202) \<or>
     c = 8232 \<or> c = 8233 \<or> c = 8239 \<or> c = 8287 \<or> c = 12288 \<or> c = 65279"

definition isDigit :: "nat \<Rightarrow> bool" where
  "isDigit c \<longleftrightarrow> 48 \<le> c \<and> c \<le> 57"

definition trim :: "jsstring \<Rightarrow> jsstring" where
  "trim s = rev (dropWhile isSpace (rev (dropWhile isSpace s)))"

text \<open>
  \<open>toLowerCase\<close> on Basic Latin and Latin-1, which covers every keyword the program
  compares a lower-cased string with (the Turkish word for "all", with U+00FC, among
  them). Code units above U+00FF are kept as they are, where JavaScript consults the
  whole Unicode case table.
\<close>

definition lowerUnit :: "nat \<Rightarrow> nat" where
  "lowerUnit c =
     (if (65 \<le> c \<and> c \<le> 90) \<or> (192 \<le> c \<and> c \<le> 222 \<and> c \<noteq> 215) then c + 32 else c)"

definition toLowerCase :: "jsstring \<Rightarrow> jsstring" where
  "toLowerCase s = map lowerUnit s"

text \<open>\<open>s.split(sep)\<close> for a separator of one code unit: always at least one piece.\<close>

fun splitOn :: "nat \<Rightarrow> jsstring \<Rightarrow> jsstring list" where
  "splitOn sep [] = [[]]"
| "splitOn sep (c # cs) =
     (if c = sep then [] # splitOn sep cs
      else (case splitOn sep cs of [] \<Rightarrow> [[c]] | p # ps \<Rightarrow> (c # p) # ps))"

text \<open>\<open>xs.join(sep)\<close>.\<close>

fun join :: "jsstring \<Rightarrow> jsstring list \<Rightarrow> jsstring" where
  "join sep [] = []"
| "join sep [s] = s"
| "join sep (s # t # ts) = s @ sep @ join sep (t # ts)"

text \<open>\<open>s.includes(sub)\<close>: \<open>sub\<close> occurs somewhere in \<open>s\<close>.\<close>

fun str_includes :: "jsstring \<Rightarrow> jsstring \<Rightarrow> bool" where
  "str_includes [] sub = (sub = [])"
| "str_includes (c # cs) sub = (take (length sub) (c # cs) = sub \<or> str_includes cs sub)"

text \<open>\<open>s.indexOf(c)\<close> for one code unit; \<open>None\<close> is the source's \<open>-1\<close>.\<close>

fun indexOf :: "nat \<Rightarrow> jsstring \<Rightarrow> nat option" where
  "indexOf c [] = None"
| "indexOf c (x # xs) = (if x = c then Some 0 else map_option Suc (indexOf c xs))"

text \<open>\<open>s.substring(a, b)\<close> for \<open>a \<le> b\<close>, and \<open>s.substring(a)\<close>.\<close>

definition substring :: "jsstring \<Rightarrow> nat \<Rightarrow> nat \<Rightarrow> jsstring" where
  "substring s a b = take (b - a) (drop a s)"

definition substringFrom :: "jsstring \<Rightarrow> nat \<Rightarrow> jsstring" where
  "substringFrom s a = drop a s"

text \<open>\<open>xs.findIndex(p)\<close>; \<open>None\<close> is the source's \<open>-1\<close>.\<close>

fun findIndex :: "('a \<Rightarrow> bool) \<Rightarrow> 'a list \<Rightarrow> nat option" where
  "findIndex p [] = None"
| "findIndex p (x # xs) = (if p x then Some 0 else map_option Suc (findIndex p xs))"

text \<open>\<open>xs.slice(a, b)\<close> for indices within the array.\<close>

definition slice :: "'a list \<Rightarrow> nat \<Rightarrow> nat \<Rightarrow> 'a list" where
  "slice xs a b = take (b - a) (drop a xs)"

section \<open>Regular expressions\<close>

text \<open>
  The patterns of the program use literals, character classes, the escapes \<open>\s\<close> and
  \<open>\d\<close>, greedy \<open>*\<close> and \<open>+\<close> on a single character or class, \<open>?\<close>, alternation,
  capture groups and the anchors \<open>^\<close> and \<open>$\<close> (without the multiline flag). The
  datatype has exactly these.
\<close>

datatype cclass = CChar nat | CRange nat nat | CSpace | CDigit

datatype atom = Lit nat | Class bool "cclass list"

datatype regex =
    Eps
  | Atom atom
  | Star atom
  | Plus atom
  | Opt regex
  | Seq regex regex
  | Alt regex regex
  | Group nat regex
  | Bol
  | Eol

text \<open>
  With the flag \<open>i\<close> two code units match when their canonical forms are equal.
  ECMAScript's Canonicalize (without the flag \<open>u\<close>) upper-cases a code unit but never
  maps one from U+0080 on to one below; the patterns here hold ASCII letters, digits,
  punctuation, white space and two symbols without case, so upper-casing \<open>a\<close>-\<open>z\<close> is
  the whole of it.
\<close>

definition canonicalize :: "nat \<Rightarrow> nat" where
  "canonicalize c = (if 97 \<le> c \<and> c \<le> 122 then c - 32 else c)"

fun inClass :: "cclass \<Rightarrow> nat \<Rightarrow> bool" where
  "inClass (CChar a) c = (c = a)"
| "inClass (CRange lo hi) c = (lo \<le> c \<and> c \<le> hi)"
| "inClass CSpace c = isSpace c"
| "inClass CDigit c = isDigit c"

text \<open>
  A class matches \<open>c\<close> without regard to case when it has a member with the canonical
  form of \<open>c\<close>: that member is \<open>c\<close>, its upper-case form or its lower-case form.
\<close>

definition classMatches :: "bool \<Rightarrow> cclass \<Rightarrow> nat \<Rightarrow> bool" where
  "classMatches ci cl c =
     (inClass cl c \<or>
      (ci \<and> (inClass cl (canonicalize c) \<or> (65 \<le> c \<and> c \<le> 90 \<and> inClass cl (c + 32)))))"

fun amatch :: "bool \<Rightarrow> atom \<Rightarrow> nat \<Rightarrow> bool" where
  "amatch ci (Lit a) c = (if ci then canonicalize a = canonicalize c else a = c)"
| "amatch ci (Class negated cls) c = (negated \<noteq> list_ex (\<lambda>cl. classMatches ci cl c) cls)"

text \<open>
  The matcher backtracks. It is written as the list of all the ways a pattern matches a
  prefix of the input, in the order backtracking tries them: each way is the captures so
  far and the input left. A greedy quantifier lists the longest way first. The first
  element of the list is the match JavaScript reports.
\<close>

type_synonym captures = "(nat \<times> jsstring) list"

fun starRests :: "bool \<Rightarrow> atom \<Rightarrow> jsstring \<Rightarrow> jsstring list" where
  "starRests ci a [] = [[]]"
| "starRests ci a (c # cs) = (if amatch ci a c then starRests ci a cs else []) @ [c # cs]"

fun rmatch :: "bool \<Rightarrow> nat \<Rightarrow> regex \<Rightarrow> captures \<Rightarrow> jsstring \<Rightarrow> (captures \<times> jsstring) list" where
  "rmatch ci n Eps caps s = [(caps, s)]"
| "rmatch ci n (Atom a) caps s =
     (case s of [] \<Rightarrow> [] | c # cs \<Rightarrow> if amatch ci a c then [(caps, cs)] else [])"
| "rmatch ci n (Star a) caps s = map (Pair caps) (starRests ci a s)"
| "rmatch ci n (Plus a) caps s =
     (case s of [] \<Rightarrow> []
      | c # cs \<Rightarrow> if amatch ci a c then map (Pair caps) (starRests ci a cs) else [])"
| "rmatch ci n (Opt r) caps s = rmatch ci n r caps s @ [(caps, s)]"
| "rmatch ci n (Seq r1 r2) caps s =
     concat (map (\<lambda>(caps', rest). rmatch ci n r2 caps' rest) (rmatch ci n r1 caps s))"
| "rmatch ci n (Alt r1 r2) caps s = rmatch ci n r1 caps s @ rmatch ci n r2 caps s"
| "rmatch ci n (Group k r) caps s =
     map (\<lambda>(caps', rest). (AList.update k (take (length s - length rest) s) caps', rest))
       (rmatch ci n r caps s)"
| "rmatch ci n Bol caps s = (if length s = n then [(caps, s)] else [])"
| "rmatch ci n Eol caps s = (if s = [] then [(caps, s)] else [])"

text \<open>
  A match result: the index where the match starts, the matched text (\<open>m[0]\<close>) and the
  captures. \<open>execFrom\<close> tries the start positions from left to right; \<open>n\<close> is the
  length of the whole input, by which \<open>^\<close> knows the start.
\<close>

record matchResult =
  m_index :: nat
  m_whole :: jsstring
  m_groups :: captures

fun execFrom :: "bool \<Rightarrow> nat \<Rightarrow> regex \<Rightarrow> nat \<Rightarrow> jsstring \<Rightarrow> matchResult option" where
  "execFrom ci n r i [] =
     (case rmatch ci n r [] [] of
        [] \<Rightarrow> None
      | (caps, rest) # _ \<Rightarrow> Some \<lparr>m_index = i, m_whole = [], m_groups = caps\<rparr>)"
| "execFrom ci n r i (c # cs) =
     (case rmatch ci n r [] (c # cs) of
        [] \<Rightarrow> execFrom ci n r (Suc i) cs
      | (caps, rest) # _ \<Rightarrow>
          Some \<lparr>m_index = i, m_whole = take (length (c # cs) - length rest) (c # cs),
                m_groups = caps\<rparr>)"

text \<open>A pattern with its flag \<open>i\<close>; none of the patterns matched this way is global.\<close>

type_synonym regexp = "bool \<times> regex"

definition re_match :: "jsstring \<Rightarrow> regexp \<Rightarrow> matchResult option" where
  "re_match s re = execFrom (fst re) (length s) (snd re) 0 s"

definition re_test :: "regexp \<Rightarrow> jsstring \<Rightarrow> bool" where
  "re_test re s = (re_match s re \<noteq> None)"

definition re_search :: "jsstring \<Rightarrow> regexp \<Rightarrow> nat option" where
  "re_search s re = map_option m_index (re_match s re)"

text \<open>
  A value read from a match array or stored in the result: a string or \<open>undefined\<close>
  (a group that took no part in the match, or an index past the last group).
\<close>

datatype jsval = Str jsstring | Undefined

definition grp :: "matchResult \<Rightarrow> nat \<Rightarrow> jsval" where
  "grp m k =
     (if k = 0 then Str (m_whole m)
      else case map_of (m_groups m) k of None \<Rightarrow> Undefined | Some s \<Rightarrow> Str s)"

definition truthy :: "jsval \<Rightarrow> bool" where
  "truthy v = (case v of Str s \<Rightarrow> s \<noteq> [] | Undefined \<Rightarrow> False)"

definition js_or :: "jsval \<Rightarrow> jsval \<Rightarrow> jsval" where
  "js_or a b = (if truthy a then a else b)"

text \<open>Pattern building: a literal text, a sequence of patterns.\<close>

fun lit :: "jsstring \<Rightarrow> regex" where
  "lit [] = Eps"
| "lit (c # cs) = Seq (Atom (Lit c)) (lit cs)"

fun seqs :: "regex list \<Rightarrow> regex" where
  "seqs [] = Eps"
| "seqs (r # rs) = Seq r (seqs rs)"

section \<open>The field parser: \<open>parseCorneaData\<close>\<close>

text \<open>
  The result object: keys in insertion order, each with its value. An assignment
  \<open>data[k] = v\<close> replaces the value of a key that is there and appends a new key
  otherwise, which is \<open>AList.update\<close>.
\<close>

type_synonym record_data = "(jsstring \<times> jsval) list"

definition puts :: "(string \<times> jsval) list \<Rightarrow> record_data \<Rightarrow> record_data" where
  "puts kvs d = foldl (\<lambda>acc (k, v). AList.update (js k) v acc) d kvs"

subsection \<open>The patterns\<close>

definition sepClass :: atom where
  \<comment> \<open>\<open>[:\s]\<close>\<close>
  "sepClass = Class False [CChar 58, CSpace]"

definition numClass :: atom where
  \<comment> \<open>\<open>[0-9.]\<close>\<close>
  "numClass = Class False [CRange 48 57, CChar 46]"

definition signedNumClass :: atom where
  \<comment> \<open>\<open>[-0-9.]\<close>\<close>
  "signedNumClass = Class False [CChar 45, CRange 48 57, CChar 46]"

definition spaceClass :: atom where
  \<comment> \<open>\<open>\s\<close>\<close>
  "spaceClass = Class False [CSpace]"

definition frontHeading :: regexp where
  \<comment> \<open>\<open>/Cornea\s*Front|^Front$/i\<close>\<close>
  "frontHeading =
     (True, Alt (seqs [lit (js ''Cornea''), Star spaceClass, lit (js ''Front'')])
                (seqs [Bol, lit (js ''Front''), Eol]))"

definition backHeading :: regexp where
  \<comment> \<open>\<open>/Cornea\s*Back|^Back$/i\<close>\<close>
  "backHeading =
     (True, Alt (seqs [lit (js ''Cornea''), Star spaceClass, lit (js ''Back'')])
                (seqs [Bol, lit (js ''Back''), Eol]))"

definition labelled :: "string \<Rightarrow> regexp" where
  \<comment> \<open>\<open>/L[:\s]+([0-9.]+)/i\<close> for the label \<open>L\<close>\<close>
  "labelled l = (True, seqs [lit (js l), Plus sepClass, Group 1 (Plus numClass)])"

definition labelledSigned :: "string \<Rightarrow> regexp" where
  \<comment> \<open>\<open>/L[:\s]+([-0-9.]+)/i\<close> for the label \<open>L\<close>\<close>
  "labelledSigned l = (True, seqs [lit (js l), Plus sepClass, Group 1 (Plus signedNumClass)])"

definition axisPattern :: regexp where
  \<comment> \<open>\<open>/Axis[^\d]*(flat)?[:\s]*([0-9.]+)/i\<close>\<close>
  "axisPattern =
     (True, seqs [lit (js ''Axis''), Star (Class True [CDigit]), Opt (Group 1 (lit (js ''flat''))),
                  Star sepClass, Group 2 (Plus numClass)])"

definition degreePattern :: regexp where
  \<comment> \<open>\<open>/([0-9.]+)\s*\<degree>/\<close>, the degree sign being U+00B0\<close>
  "degreePattern = (False, seqs [Group 1 (Plus numClass), Star spaceClass, Atom (Lit 176)])"

definition qvalPattern :: regexp where
  \<comment> \<open>\<open>/Q-val[^-\d]*([-0-9.]+)/i\<close>\<close>
  "qvalPattern =
     (True, seqs [lit (js ''Q-val''), Star (Class True [CChar 45, CDigit]),
                  Group 1 (Plus signedNumClass)])"

definition pupilCenterPattern :: regexp where
  \<comment> \<open>\<open>/Pupil Center[:\s]+[+]?([0-9.]+)/i\<close>\<close>
  "pupilCenterPattern =
     (True, seqs [lit (js ''Pupil Center''), Plus sepClass, Opt (Atom (Class False [CChar 43])),
                  Group 1 (Plus numClass)])"

definition thinnestPattern :: regexp where
  \<comment> \<open>\<open>/Thinnest Local[:\s]+[G]?\s*([0-9.]+)/i\<close>, \<open>G\<close> being the glyph U+25C7\<close>
  "thinnestPattern =
     (True, seqs [lit (js ''Thinnest Local''), Plus sepClass, Opt (Atom (Class False [CChar 9671])),
                  Star spaceClass, Group 1 (Plus numClass)])"

definition depthPattern :: regexp where
  \<comment> \<open>\<open>/Depth/i\<close>\<close>
  "depthPattern = (True, lit (js ''Depth''))"

definition digitClass :: atom where
  \<comment> \<open>\<open>[0-9]\<close>\<close>
  "digitClass = Class False [CRange 48 57]"

definition decimalPattern :: regexp where
  \<comment> \<open>\<open>/([0-9]+\.[0-9]+)/\<close>\<close>
  "decimalPattern = (False, Group 1 (seqs [Plus digitClass, Atom (Lit 46), Plus digitClass]))"

definition pupilDiaPattern :: regexp where
  \<comment> \<open>\<open>/Pupil\s+Dia[:\s.]+([0-9.]+)/i\<close>\<close>
  "pupilDiaPattern =
     (True, seqs [lit (js ''Pupil''), Plus spaceClass, lit (js ''Dia''),
                  Plus (Class False [CChar 58, CSpace, CChar 46]), Group 1 (Plus numClass)])"

definition pupilDiameterPattern :: regexp where
  \<comment> \<open>\<open>/Pupil\s*Diameter[:\s]+([0-9.]+)/i\<close>\<close>
  "pupilDiameterPattern =
     (True, seqs [lit (js ''Pupil''), Star spaceClass, lit (js ''Diameter''), Plus sepClass,
                  Group 1 (Plus numClass)])"

subsection \<open>Lines and sections\<close>

definition textLines :: "jsstring \<Rightarrow> jsstring list" where
  \<comment> \<open>\<open>text.split('\n').map(line => line.trim()).filter(line => line.length > 0)\<close>\<close>
  "textLines txt = filter (\<lambda>line. length line > 0) (map trim (splitOn 10 txt))"

text \<open>
  The front and the back text. Both headings found in order: the lines from the front
  heading up to the back heading, and the lines from the back heading on, joined by
  spaces. Otherwise, one heading found: the line list cut at its midpoint. No heading:
  the whole text twice.
\<close>

definition sections :: "jsstring \<Rightarrow> jsstring \<times> jsstring" where
  "sections txt =
     (let lines = textLines txt;
          frontIndex = findIndex (re_test frontHeading) lines;
          backIndex = findIndex (re_test backHeading) lines
      in case (frontIndex, backIndex) of
           (Some f, Some b) \<Rightarrow>
             if b > f then (join (js '' '') (slice lines f b), join (js '' '') (drop b lines))
             else (let midpoint = length lines div 2
                   in (join (js '' '') (take midpoint lines), join (js '' '') (drop midpoint lines)))
         | (None, None) \<Rightarrow> (txt, txt)
         | _ \<Rightarrow>
             (let midpoint = length lines div 2
              in (join (js '' '') (take midpoint lines), join (js '' '') (drop midpoint lines))))"

subsection \<open>The requested fields\<close>

definition requestedFields :: "jsstring \<Rightarrow> jsstring list" where
  \<comment> \<open>\<open>fields ? fields.split(',').map(f => f.trim().toLowerCase()) : []\<close>\<close>
  "requestedFields fieldNames =
     (if fieldNames = [] then []
      else map (\<lambda>f. toLowerCase (trim f)) (splitOn 44 fieldNames))"

definition extractAll :: "jsstring list \<Rightarrow> bool" where
  "extractAll rf \<longleftrightarrow> length rf = 0 \<or> [116, 252, 109, 252] \<in> set rf \<or> js ''all'' \<in> set rf"

definition wanted :: "jsstring list \<Rightarrow> string list \<Rightarrow> bool" where
  \<comment> \<open>\<open>extractAll || requestedFields.some(f => f.includes(k1) || f.includes(k2) ...)\<close>\<close>
  "wanted rf keywords \<longleftrightarrow>
     extractAll rf \<or> list_ex (\<lambda>f. list_ex (\<lambda>k. str_includes f (js k)) keywords) rf"

subsection \<open>Extraction\<close>

definition extractValue :: "jsstring \<Rightarrow> regexp \<Rightarrow> jsval" where
  "extractValue txt pattern =
     (case re_match txt pattern of
        None \<Rightarrow> Str (js ''-'')
      | Some m \<Rightarrow>
          (case grp m 1 of Str v \<Rightarrow> if v \<noteq> [] then Str (trim v) else Str (js ''-'')
           | Undefined \<Rightarrow> Str (js ''-'')))"

definition extractValueWithNegative :: "jsstring \<Rightarrow> regexp \<Rightarrow> jsval" where
  "extractValueWithNegative txt pattern =
     (case re_match txt pattern of
        None \<Rightarrow> Str (js ''-'')
      | Some m \<Rightarrow>
          (case grp m 1 of Str v \<Rightarrow> if v \<noteq> [] then Str (trim v) else Str (js ''-'')
           | Undefined \<Rightarrow> Str (js ''-'')))"

definition axisValue :: "jsstring \<Rightarrow> jsval" where
  \<comment> \<open>the first pattern, else the second; then \<open>m[2] || m[1] || '-'\<close>\<close>
  "axisValue txt =
     (case (case re_match txt axisPattern of Some m \<Rightarrow> Some m
            | None \<Rightarrow> re_match txt degreePattern) of
        None \<Rightarrow> Str (js ''-'')
      | Some m \<Rightarrow> js_or (grp m 2) (js_or (grp m 1) (Str (js ''-''))))"

definition acDepthValue :: "jsstring \<Rightarrow> jsval" where
  "acDepthValue txt =
     (case re_search txt depthPattern of
        None \<Rightarrow> Str (js ''-'')
      | Some depthIndex \<Rightarrow>
          (let afterDepth = substring txt depthIndex (depthIndex + 150)
           in case indexOf 58 afterDepth of
                None \<Rightarrow> Str (js ''-'')
              | Some colonIndex \<Rightarrow>
                  (let afterColon = substringFrom afterDepth (colonIndex + 1)
                   in case re_match afterColon decimalPattern of
                        None \<Rightarrow> Str (js ''-'')
                      | Some numberMatch \<Rightarrow> grp numberMatch 1)))"

definition pupilDiaValue :: "jsstring \<Rightarrow> jsval" where
  "pupilDiaValue txt =
     (case (case re_match txt pupilDiaPattern of Some m \<Rightarrow> Some m
            | None \<Rightarrow> re_match txt pupilDiameterPattern) of
        None \<Rightarrow> Str (js ''-'')
      | Some m \<Rightarrow> grp m 1)"

text \<open>The groups, in the order the source runs them; each adds its keys when wanted.\<close>

definition frontRadius :: "jsstring list \<Rightarrow> jsstring \<Rightarrow> record_data \<Rightarrow> record_data" where
  "frontRadius rf frontText d =
     (if wanted rf [''rh'', ''radius'']
      then puts [(''Front_Rh'', extractValue frontText (labelled ''Rh'')),
                 (''Front_Rv'', extractValue frontText (labelled ''Rv'')),
                 (''Front_Rm'', extractValue frontText (labelled ''Rm''))] d
      else d)"

definition frontKeratometry :: "jsstring list \<Rightarrow> jsstring \<Rightarrow> record_data \<Rightarrow> record_data" where
  "frontKeratometry rf frontText d =
     (if wanted rf [''k'', ''keratometry'']
      then puts [(''Front_K1'', extractValue frontText (labelled ''K1'')),
                 (''Front_K2'', extractValue frontText (labelled ''K2'')),
                 (''Front_Km'', extractValue frontText (labelled ''Km''))] d
      else d)"

definition frontAxisAstig :: "jsstring list \<Rightarrow> jsstring \<Rightarrow> record_data \<Rightarrow> record_data" where
  "frontAxisAstig rf frontText d =
     (if wanted rf [''axis'', ''astig'']
      then puts [(''Front_Axis'', axisValue frontText),
                 (''Front_Astig'', extractValue frontText (labelled ''Astig''))] d
      else d)"

definition frontQval :: "jsstring list \<Rightarrow> jsstring \<Rightarrow> record_data \<Rightarrow> record_data" where
  "frontQval rf frontText d =
     (if wanted rf [''q'']
      then puts [(''Front_Q-val'', extractValue frontText qvalPattern)] d
      else d)"

definition frontRperRmin :: "jsstring list \<Rightarrow> jsstring \<Rightarrow> record_data \<Rightarrow> record_data" where
  "frontRperRmin rf frontText d =
     (if wanted rf [''rper'', ''rmin'']
      then puts [(''Front_Rper'', extractValue frontText (labelled ''Rper'')),
                 (''Front_Rmin'', extractValue frontText (labelled ''Rmin''))] d
      else d)"

definition backRadius :: "jsstring list \<Rightarrow> jsstring \<Rightarrow> record_data \<Rightarrow> record_data" where
  "backRadius rf backText d =
     (if wanted rf [''rh'', ''radius'']
      then puts [(''Back_Rh'', extractValueWithNegative backText (labelled ''Rh'')),
                 (''Back_Rv'', extractValueWithNegative backText (labelled ''Rv'')),
                 (''Back_Rm'', extractValueWithNegative backText (labelled ''Rm''))] d
      else d)"

definition backKeratometry :: "jsstring list \<Rightarrow> jsstring \<Rightarrow> record_data \<Rightarrow> record_data" where
  "backKeratometry rf backText d =
     (if wanted rf [''k'', ''keratometry'']
      then puts [(''Back_K1'', extractValueWithNegative backText (labelledSigned ''K1'')),
                 (''Back_K2'', extractValueWithNegative backText (labelledSigned ''K2'')),
                 (''Back_Km'', extractValueWithNegative backText (labelledSigned ''Km''))] d
      else d)"

definition backAxisAstig :: "jsstring list \<Rightarrow> jsstring \<Rightarrow> record_data \<Rightarrow> record_data" where
  "backAxisAstig rf backText d =
     (if wanted rf [''axis'', ''astig'']
      then puts [(''Back_Axis'', axisValue backText),
                 (''Back_Astig'', extractValueWithNegative backText (labelled ''Astig''))] d
      else d)"

definition backQval :: "jsstring list \<Rightarrow> jsstring \<Rightarrow> record_data \<Rightarrow> record_data" where
  "backQval rf backText d =
     (if wanted rf [''q'']
      then puts [(''Back_Q-val'', extractValueWithNegative backText qvalPattern)] d
      else d)"

definition backRperRmin :: "jsstring list \<Rightarrow> jsstring \<Rightarrow> record_data \<Rightarrow> record_data" where
  "backRperRmin rf backText d =
     (if wanted rf [''rper'', ''rmin'']
      then puts [(''Back_Rper'', extractValueWithNegative backText (labelled ''Rper'')),
                 (''Back_Rmin'', extractValueWithNegative backText (labelled ''Rmin''))] d
      else d)"

definition pachymetry :: "jsstring list \<Rightarrow> jsstring \<Rightarrow> record_data \<Rightarrow> record_data" where
  "pachymetry rf txt d =
     (if wanted rf [''pachy'']
      then puts [(''Pachy_Center'', extractValue txt pupilCenterPattern),
                 (''Pachy_Apex'', extractValue txt (labelled ''Pachy Apex'')),
                 (''Pachy_Thinnest'', extractValue txt thinnestPattern)] d
      else d)"

definition acDepthPupilDia :: "jsstring list \<Rightarrow> jsstring \<Rightarrow> record_data \<Rightarrow> record_data" where
  "acDepthPupilDia rf txt d =
     (if wanted rf [''ac'', ''depth'', ''pupil'']
      then puts [(''AC_Depth'', acDepthValue txt), (''Pupil_Dia'', pupilDiaValue txt)] d
      else d)"

definition parseCorneaData :: "jsstring \<Rightarrow> jsstring \<Rightarrow> record_data" where
  "parseCorneaData txt fieldNames =
     (let frontText = fst (sections txt);
          backText = snd (sections txt);
          rf = requestedFields fieldNames
      in (acDepthPupilDia rf txt \<circ> pachymetry rf txt \<circ>
          backRperRmin rf backText \<circ> backQval rf backText \<circ> backAxisAstig rf backText \<circ>
          backKeratometry rf backText \<circ> backRadius rf backText \<circ>
          frontRperRmin rf frontText \<circ> frontQval rf frontText \<circ> frontAxisAstig rf frontText \<circ>
          frontKeratometry rf frontText \<circ> frontRadius rf frontText) [])"

section \<open>Numbers and detector output\<close>

text \<open>
  Pixel coordinates are JavaScript numbers. They are modelled as rationals: the program
  only adds them, divides a sum by a count, scales by a constant and compares, and the
  properties below rest on the comparisons alone, not on rounding: a sum, a mean or a
  threshold here is the exact one, where the program has the double next to it. The one
  value beyond the rationals that the program can produce, \<open>Math.max()\<close> of no
  arguments, is kept.
\<close>

datatype jsnum = NegInfinity | Num rat

fun math_max :: "rat list \<Rightarrow> jsnum" where
  "math_max [] = NegInfinity"
| "math_max (a # as) = Num (fold max as a)"

fun scaled :: "jsnum \<Rightarrow> rat \<Rightarrow> jsnum" where
  \<comment> \<open>multiplication by a positive constant\<close>
  "scaled NegInfinity k = NegInfinity"
| "scaled (Num a) k = Num (a * k)"

fun below :: "rat \<Rightarrow> jsnum \<Rightarrow> bool" where
  \<comment> \<open>\<open>a < t\<close>\<close>
  "below a NegInfinity = False"
| "below a (Num t) = (a < t)"

record vertex =
  vx :: "rat option"
  vy :: "rat option"

definition xOr0 :: "vertex \<Rightarrow> rat" where
  \<comment> \<open>\<open>v.x || 0\<close>\<close>
  "xOr0 v = (case vx v of None \<Rightarrow> 0 | Some a \<Rightarrow> a)"

definition avgX :: "vertex list \<Rightarrow> rat" where
  \<comment> \<open>\<open>vertices.reduce((sum, v) => sum + (v.x || 0), 0) / vertices.length\<close>\<close>
  "avgX vs = foldl (\<lambda>sum v. sum + xOr0 v) 0 vs / of_nat (length vs)"

text \<open>\<open>xs.join(sep)\<close> on values that may be \<open>undefined\<close>, which join as the empty string.\<close>

definition joinOpt :: "jsstring \<Rightarrow> jsstring option list \<Rightarrow> jsstring" where
  "joinOpt sep xs = join sep (map (\<lambda>x. case x of None \<Rightarrow> [] | Some s \<Rightarrow> s) xs)"

section \<open>The OCR route: full-page attribution (\<open>POST\<close>)\<close>

record annotation =
  description :: "jsstring option"
  vertices :: "vertex list option"

text \<open>
  The route compares detections by identity (\<open>mainDataBlocks.includes(block)\<close>). A block
  is therefore a detection together with its index in the detector's array: two blocks
  are the same object exactly when they are equal as pairs.
\<close>

type_synonym block = "nat \<times> annotation"

definition slice1 :: "annotation list \<Rightarrow> block list" where
  \<comment> \<open>\<open>detections.slice(1)\<close>\<close>
  "slice1 detections = drop 1 (enumerate 0 detections)"

definition imageWidth :: "annotation list \<Rightarrow> jsnum" where
  "imageWidth detections =
     (case detections of
        [] \<Rightarrow> Num 1000
      | first # _ \<Rightarrow>
          (case vertices first of None \<Rightarrow> Num 1000 | Some firstBBox \<Rightarrow> math_max (map xOr0 firstBBox)))"

definition leftThreshold :: "annotation list \<Rightarrow> jsnum" where
  "leftThreshold detections = scaled (imageWidth detections) (33 / 100)"

definition extendedThreshold :: "annotation list \<Rightarrow> jsnum" where
  "extendedThreshold detections = scaled (imageWidth detections) (50 / 100)"

definition isMain :: "annotation list \<Rightarrow> annotation \<Rightarrow> bool" where
  "isMain detections t =
     (case vertices t of
        None \<Rightarrow> False
      | Some vs \<Rightarrow> if length vs = 0 then False else below (avgX vs) (leftThreshold detections))"

definition isRelevant :: "jsstring \<Rightarrow> bool" where
  "isRelevant desc \<longleftrightarrow>
     str_includes desc (js ''depth'') \<or> str_includes desc (js ''pupil'') \<or>
     str_includes desc (js ''chamber'') \<or> str_includes desc (js ''iop'') \<or>
     str_includes desc (js ''pachy'') \<or> str_includes desc (js ''lens'') \<or>
     str_includes desc (js ''dia'')"

definition isExtended :: "annotation list \<Rightarrow> annotation \<Rightarrow> bool" where
  "isExtended detections t =
     (case vertices t of
        None \<Rightarrow> False
      | Some vs \<Rightarrow>
          if length vs = 0 then False
          else (let desc = (case description t of None \<Rightarrow> [] | Some d \<Rightarrow> toLowerCase d)
                in below (avgX vs) (extendedThreshold detections) \<and> isRelevant desc))"

definition mainDataBlocks :: "annotation list \<Rightarrow> block list" where
  "mainDataBlocks detections = filter (\<lambda>b. isMain detections (snd b)) (slice1 detections)"

definition extendedDataBlocks :: "annotation list \<Rightarrow> block list" where
  "extendedDataBlocks detections = filter (\<lambda>b. isExtended detections (snd b)) (slice1 detections)"

text \<open>
  \<open>combinedBlocks\<close> starts as a copy of the main blocks; each extended block that is not
  among the main blocks is pushed at the end.
\<close>

fun pushMissing :: "block list \<Rightarrow> block list \<Rightarrow> block list \<Rightarrow> block list" where
  "pushMissing main combined [] = combined"
| "pushMissing main combined (b # bs) =
     pushMissing main (if b \<in> set main then combined else combined @ [b]) bs"

definition combinedBlocks :: "annotation list \<Rightarrow> block list" where
  "combinedBlocks detections =
     pushMissing (mainDataBlocks detections) (mainDataBlocks detections)
       (extendedDataBlocks detections)"

definition summaryText :: "annotation list \<Rightarrow> jsstring" where
  \<comment> \<open>\<open>detections[0]?.description || ''\<close>\<close>
  "summaryText detections =
     (case detections of [] \<Rightarrow> []
      | first # _ \<Rightarrow> (case description first of None \<Rightarrow> [] | Some d \<Rightarrow> d))"

datatype response =
    Status400
  | Status404
  | Status500
  | Json (fullText: jsstring) (textBlocks: "block list")

text \<open>
  The handler after the form is read: \<open>file\<close> is the uploaded file if there is one,
  \<open>textDetection\<close> the detector, which throws (\<open>None\<close>) or returns the annotations,
  themselves possibly missing.
\<close>

definition POST ::
  "('f \<Rightarrow> annotation list option option) \<Rightarrow> 'f option \<Rightarrow> jsstring \<Rightarrow> response" where
  "POST textDetection file imageType =
     (case file of
        None \<Rightarrow> Status400
      | Some buffer \<Rightarrow>
          (case textDetection buffer of
             None \<Rightarrow> Status500
           | Some None \<Rightarrow> Status404
           | Some (Some detections) \<Rightarrow>
               if length detections = 0 then Status404
               else if imageType = js ''full''
               then (let filteredTextBlocks = combinedBlocks detections;
                         joined = joinOpt [10] (map (\<lambda>b. description (snd b)) filteredTextBlocks)
                     in Json (if joined \<noteq> [] then joined else summaryText detections)
                          filteredTextBlocks)
               else Json (summaryText detections) (slice1 detections)))"

section \<open>The region compositor: \<open>cropRegion\<close> and \<open>combineRegions\<close>\<close>

record Rectangle =
  rect_id :: jsstring
  rect_label :: jsstring
  rect_x :: rat
  rect_y :: rat
  rect_width :: rat
  rect_height :: rat

text \<open>
  The browser, as far as the two functions depend on it. A file read as an image gives
  its natural size, fails to load (\<open>img.onerror\<close>), or cannot be read, and then no
  handler ever runs. \<open>getContext('2d')\<close> gives a context or \<open>null\<close>; \<open>canvas.toBlob\<close>
  passes a blob or \<open>null\<close> to its callback; an image made from a blob fires \<open>onload\<close>
  or never does (the source sets no error handler there).

  The size of a crop is a product of two JavaScript numbers, \<open>rect.width * img.naturalWidth\<close>,
  which the engine rounds to the nearest double before the canvas truncates it; the
  rounded product can fall on the other side of a whole number than the exact one. The
  product is therefore left to the browser as well (\<open>multiply\<close>), and what is proved
  about the compositor holds for every way of rounding it.
\<close>

datatype imageFile = Unreadable | NotAnImage | Image nat nat

record blob =
  blob_width :: nat
  blob_height :: nat

record browser =
  multiply :: "rat \<Rightarrow> rat \<Rightarrow> rat"
  context2d :: bool
  encodes :: "nat \<Rightarrow> nat \<Rightarrow> bool"
  loads :: "blob \<Rightarrow> bool"

datatype failure = CouldNotGetContext | CouldNotCreateBlob | CouldNotLoadImage | TypeError

datatype 'a promise = Pending | Rejected failure | Fulfilled 'a

text \<open>
  Assigning a number to \<open>canvas.width\<close> or \<open>canvas.height\<close>: the number is converted
  to an unsigned long (truncated towards zero, modulo \<open>2^32\<close>); a value above
  \<open>2147483647\<close> is replaced by the attribute's default.
\<close>

definition canvasSize :: "nat \<Rightarrow> rat \<Rightarrow> nat" where
  "canvasSize dflt v =
     (let n = nat ((if 0 \<le> v then \<lfloor>v\<rfloor> else \<lceil>v\<rceil>) mod 4294967296)
      in if n > 2147483647 then dflt else n)"

definition cropRegion :: "browser \<Rightarrow> imageFile \<Rightarrow> Rectangle \<Rightarrow> blob promise" where
  "cropRegion B f rect =
     (case f of
        Unreadable \<Rightarrow> Pending
      | NotAnImage \<Rightarrow> Rejected CouldNotLoadImage
      | Image naturalWidth naturalHeight \<Rightarrow>
          (let width = multiply B (rect_width rect) (of_nat naturalWidth);
               height = multiply B (rect_height rect) (of_nat naturalHeight);
               canvasWidth = canvasSize 300 width;
               canvasHeight = canvasSize 150 height
           in if \<not> context2d B then Rejected CouldNotGetContext
              else if encodes B canvasWidth canvasHeight
              then Fulfilled \<lparr>blob_width = canvasWidth, blob_height = canvasHeight\<rparr>
              else Rejected CouldNotCreateBlob))"

record croppedImage =
  ci_id :: jsstring
  ci_blob :: blob
  ci_width :: nat
  ci_height :: nat

record boundary =
  bnd_id :: jsstring
  xStart :: nat
  xEnd :: nat

record composite =
  canvasWidth :: int
  canvasHeight :: jsnum
  boundaries :: "boundary list"

definition GAP :: nat where
  "GAP = 10"

text \<open>The first loop: crop each rectangle in turn and read the size of the crop.\<close>

fun cropAll :: "browser \<Rightarrow> imageFile \<Rightarrow> Rectangle list \<Rightarrow> croppedImage list promise" where
  "cropAll B f [] = Fulfilled []"
| "cropAll B f (rect # rects) =
     (case cropRegion B f rect of
        Pending \<Rightarrow> Pending
      | Rejected e \<Rightarrow> Rejected e
      | Fulfilled b \<Rightarrow>
          if \<not> loads B b then Pending
          else (case cropAll B f rects of
                  Pending \<Rightarrow> Pending
                | Rejected e \<Rightarrow> Rejected e
                | Fulfilled croppedImages \<Rightarrow>
                    Fulfilled (\<lparr>ci_id = rect_id rect, ci_blob = b, ci_width = blob_width b,
                                ci_height = blob_height b\<rparr> # croppedImages)))"

definition totalWidth :: "croppedImage list \<Rightarrow> int" where
  "totalWidth croppedImages =
     int (foldl (\<lambda>sum img. sum + ci_width img) 0 croppedImages) +
     int GAP * (int (length croppedImages) - 1)"

definition maxHeight :: "croppedImage list \<Rightarrow> jsnum" where
  "maxHeight croppedImages = math_max (map (\<lambda>img. of_nat (ci_height img)) croppedImages)"

text \<open>
  The second loop: draw each crop at \<open>currentX\<close> and record its range. It loads each
  blob a second time, only to draw it; that load ends as the first one did, so the loop
  is written after its arithmetic.
\<close>

fun drawAll :: "nat \<Rightarrow> croppedImage list \<Rightarrow> boundary list" where
  "drawAll currentX [] = []"
| "drawAll currentX (croppedImg # rest) =
     \<lparr>bnd_id = ci_id croppedImg, xStart = currentX, xEnd = currentX + ci_width croppedImg\<rparr>
       # drawAll (currentX + ci_width croppedImg + GAP) rest"

definition combineRegions :: "browser \<Rightarrow> imageFile \<Rightarrow> Rectangle list \<Rightarrow> composite promise" where
  "combineRegions B f rects =
     (case cropAll B f rects of
        Pending \<Rightarrow> Pending
      | Rejected e \<Rightarrow> Rejected e
      | Fulfilled croppedImages \<Rightarrow>
          if \<not> context2d B then Rejected TypeError
          else Fulfilled \<lparr>canvasWidth = totalWidth croppedImages,
                           canvasHeight = maxHeight croppedImages,
                           boundaries = drawAll 0 croppedImages\<rparr>)"

text \<open>
  A browser after the HTML standard: a canvas without pixels gives no blob. It serves
  the examples, whose products are whole numbers of pixels far below \<open>2^53\<close>; a double
  holds such a product exactly, so this browser multiplies exactly.
\<close>

definition standardBrowser :: browser where
  "standardBrowser =
     \<lparr>multiply = (\<lambda>a b. a * b), context2d = True, encodes = (\<lambda>w h. 0 < w \<and> 0 < h),
      loads = (\<lambda>b. True)\<rparr>"

section \<open>Region attribution: \<open>parseRegionResults\<close>\<close>

text \<open>
  The two result objects of the function, keyed by region identifier, are association
  lists read by key. The identifiers of the program are made by \<open>crypto.randomUUID()\<close>:
  none of them is an integer-like key, which a JavaScript object would list before the
  others, and none is \<open>__proto__\<close>, which an assignment would not make a key.
\<close>

record textBlock =
  tb_description :: "jsstring option"
  boundingBox :: "vertex list option"

type_synonym region_texts = "(jsstring \<times> jsstring option list) list"

text \<open>\<open>s.replace(/\s+/g, ' ')\<close>: every maximal run of white space becomes one space.\<close>

function replaceSpaces :: "jsstring \<Rightarrow> jsstring" where
  "replaceSpaces [] = []"
| "replaceSpaces (c # cs) =
     (if isSpace c then 32 # replaceSpaces (dropWhile isSpace cs) else c # replaceSpaces cs)"
  by pat_completeness auto
termination
  by (relation "measure length") (auto simp: length_dropWhile_le less_Suc_eq_le)

definition initResults :: "boundary list \<Rightarrow> region_texts" where
  \<comment> \<open>\<open>boundaries.forEach(b => { results[b.id] = []; })\<close>\<close>
  "initResults bs = foldl (\<lambda>results b. AList.update (bnd_id b) [] results) [] bs"

text \<open>The inner loop over the boundaries, left at the first range that holds \<open>a\<close>.\<close>

fun assignBlock ::
  "region_texts \<Rightarrow> rat \<Rightarrow> jsstring option \<Rightarrow> boundary list \<Rightarrow> region_texts" where
  "assignBlock results a d [] = results"
| "assignBlock results a d (b # bs) =
     (if a \<ge> of_nat (xStart b) \<and> a < of_nat (xEnd b)
      then AList.map_entry (bnd_id b) (\<lambda>texts. texts @ [d]) results
      else assignBlock results a d bs)"

definition placeBlock :: "boundary list \<Rightarrow> region_texts \<Rightarrow> textBlock \<Rightarrow> region_texts" where
  "placeBlock bs results blk =
     (case boundingBox blk of
        None \<Rightarrow> results
      | Some bb \<Rightarrow>
          if length bb = 0 then results
          else assignBlock results (avgX bb) (tb_description blk) bs)"

definition finalText :: "jsstring option list \<Rightarrow> jsstring" where
  \<comment> \<open>\<open>texts.join(' ').replace(/\s+/g, ' ').trim() || '-'\<close>\<close>
  "finalText texts =
     (let t = trim (replaceSpaces (joinOpt (js '' '') texts)) in if t \<noteq> [] then t else js ''-'')"

definition parseRegionResults :: "textBlock list \<Rightarrow> boundary list \<Rightarrow> (jsstring \<times> jsstring) list" where
  "parseRegionResults blocks bs =
     map (\<lambda>(k, texts). (k, finalText texts)) (foldl (placeBlock bs) (initResults bs) blocks)"

section \<open>Reference definitions\<close>

text \<open>
  What the description of region attribution says, written directly: the region of a
  fragment is the first layout range that holds the mean \<open>x\<close> of its bounding box, if
  there is one, and the texts of a region are those of its fragments, in their order.
\<close>

definition regionOf :: "boundary list \<Rightarrow> textBlock \<Rightarrow> boundary option" where
  "regionOf bs blk =
     (case boundingBox blk of
        None \<Rightarrow> None
      | Some bb \<Rightarrow>
          if bb = [] then None
          else find (\<lambda>b. of_nat (xStart b) \<le> avgX bb \<and> avgX bb < of_nat (xEnd b)) bs)"

definition regionTexts :: "boundary list \<Rightarrow> textBlock list \<Rightarrow> jsstring \<Rightarrow> jsstring option list" where
  "regionTexts bs blocks k =
     map tb_description (filter (\<lambda>blk. map_option bnd_id (regionOf bs blk) = Some k) blocks)"

text \<open>
  What the description of a region's text says, written on the code units themselves,
  without the string functions of the program: the text of a region is made of the
  words of its fragments, in the fragments' order, with one space (code unit 32) between
  two words, and it is the sentinel when there is no word. A word is a maximal run of
  code units that are not white space, and white space is what ECMAScript lists as
  WhiteSpace and LineTerminator. A fragment without a description has no word.
\<close>

definition blank :: "nat \<Rightarrow> bool" where
  "blank c \<longleftrightarrow>
     c \<in> set [9, 10, 11, 12, 13, 32, 160, 5760, 8192, 8193, 8194, 8195, 8196, 8197, 8198,
              8199, 8200, 8201, 8202, 8232, 8233, 8239, 8287, 12288, 65279]"

function wordsOf :: "jsstring \<Rightarrow> jsstring list" where
  "wordsOf [] = []"
| "wordsOf (c # cs) =
     (if blank c then wordsOf cs
      else (c # takeWhile (\<lambda>x. \<not> blank x) cs) # wordsOf (dropWhile (\<lambda>x. \<not> blank x) cs))"
  by pat_completeness auto
termination
  by (relation "measure length") (auto simp: length_dropWhile_le less_Suc_eq_le)

definition spaced :: "jsstring list \<Rightarrow> jsstring" where
  "spaced ws = tl (concat (map (\<lambda>w. 32 # w) ws))"

definition regionText :: "jsstring option list \<Rightarrow> jsstring" where
  "regionText texts =
     (let ws = concat (map (\<lambda>t. case t of None \<Rightarrow> [] | Some s \<Rightarrow> wordsOf s) texts)
      in if ws = [] then js ''-'' else spaced ws)"

text \<open>
  What the description of the anterior chamber depth says, written on the code units
  themselves: without patterns, and without the string functions and the case folding
  of the program.

  A text starts with \<open>Depth\<close> in any letter case when its first five code units are
  \<open>D\<close> or \<open>d\<close>, \<open>E\<close> or \<open>e\<close>, \<open>P\<close> or \<open>p\<close>, \<open>T\<close> or \<open>t\<close>, \<open>H\<close> or \<open>h\<close>. The text from
  its first \<open>Depth\<close> on is its longest suffix that starts so.
\<close>

fun startsWithDepth :: "jsstring \<Rightarrow> bool" where
  "startsWithDepth (c1 # c2 # c3 # c4 # c5 # rest) \<longleftrightarrow>
     (c1 = 68 \<or> c1 = 100) \<and> (c2 = 69 \<or> c2 = 101) \<and> (c3 = 80 \<or> c3 = 112) \<and>
     (c4 = 84 \<or> c4 = 116) \<and> (c5 = 72 \<or> c5 = 104)"
| "startsWithDepth s \<longleftrightarrow> False"

fun fromDepth :: "jsstring \<Rightarrow> jsstring option" where
  "fromDepth [] = None"
| "fromDepth (c # cs) = (if startsWithDepth (c # cs) then Some (c # cs) else fromDepth cs)"

text \<open>What follows the first colon (code unit 58) of \<open>s\<close>, if \<open>s\<close> has a colon.\<close>

definition afterColon :: "jsstring \<Rightarrow> jsstring option" where
  "afterColon s = (case dropWhile (\<lambda>c. c \<noteq> 58) s of [] \<Rightarrow> None | colon # rest \<Rightarrow> Some rest)"

text \<open>
  A decimal number at the very start of \<open>s\<close>: digits, a dot, digits, each run of digits
  as long as it can be. The first decimal number of \<open>s\<close> is the one at the leftmost
  index that has one.
\<close>

definition decimalAt :: "jsstring \<Rightarrow> jsstring option" where
  "decimalAt s =
     (let whole = takeWhile isDigit s
      in case dropWhile isDigit s of
           [] \<Rightarrow> None
         | p # tail \<Rightarrow>
             if whole \<noteq> [] \<and> p = 46 \<and> takeWhile isDigit tail \<noteq> []
             then Some (whole @ [46] @ takeWhile isDigit tail) else None)"

fun firstDecimal :: "jsstring \<Rightarrow> jsstring option" where
  "firstDecimal [] = None"
| "firstDecimal (c # cs) =
     (case decimalAt (c # cs) of Some d \<Rightarrow> Some d | None \<Rightarrow> firstDecimal cs)"

text \<open>
  The value: the first decimal number after the first colon of the window, the window
  being the first 150 code units of the text from its first \<open>Depth\<close> on; the sentinel
  when there is no \<open>Depth\<close>, no colon in the window, or no decimal number after the
  colon in the window.
\<close>

definition acDepthReference :: "jsstring \<Rightarrow> jsstring" where
  "acDepthReference txt =
     (case fromDepth txt of
        None \<Rightarrow> js ''-''
      | Some rest \<Rightarrow>
          (case afterColon (take 150 rest) of
             None \<Rightarrow> js ''-''
           | Some number \<Rightarrow> (case firstDecimal number of None \<Rightarrow> js ''-'' | Some d \<Rightarrow> d)))"

text \<open>
  For the proofs, occurrences by index: the word \<open>w\<close> occurs in \<open>s\<close> at index \<open>i\<close> up
  to the case folding of the matcher, and the first occurrence is the least such index.
\<close>

definition occursAt :: "jsstring \<Rightarrow> jsstring \<Rightarrow> nat \<Rightarrow> bool" where
  "occursAt w s i \<longleftrightarrow>
     i + length w \<le> length s \<and>
     list_all2 (\<lambda>a c. canonicalize a = canonicalize c) w (take (length w) (drop i s))"

definition firstOccurrence :: "jsstring \<Rightarrow> jsstring \<Rightarrow> nat option" where
  "firstOccurrence w s = find (occursAt w s) [0..<Suc (length s)]"

section \<open>Example inputs\<close>

definition exampleRect :: "string \<Rightarrow> rat \<Rightarrow> rat \<Rightarrow> Rectangle" where
  "exampleRect name w h =
     \<lparr>rect_id = js name, rect_label = js name, rect_x = 0, rect_y = 0, rect_width = w,
      rect_height = h\<rparr>"

definition exampleBox :: "rat \<Rightarrow> rat \<Rightarrow> vertex list" where
  \<comment> \<open>an upright box from \<open>x = a\<close> to \<open>x = b\<close>\<close>
  "exampleBox a b =
     [\<lparr>vx = Some a, vy = Some 0\<rparr>, \<lparr>vx = Some b, vy = Some 0\<rparr>,
      \<lparr>vx = Some b, vy = Some 20\<rparr>, \<lparr>vx = Some a, vy = Some 20\<rparr>]"

definition exampleWord :: "string \<Rightarrow> rat \<Rightarrow> rat \<Rightarrow> annotation" where
  "exampleWord w a b = \<lparr>description = Some (js w), vertices = Some (exampleBox a b)\<rparr>"

definition exampleBlock :: "string \<Rightarrow> rat \<Rightarrow> rat \<Rightarrow> textBlock" where
  "exampleBlock w a b = \<lparr>tb_description = Some (js w), boundingBox = Some (exampleBox a b)\<rparr>"

definition exampleLayout :: "boundary list" where
  "exampleLayout =
     [\<lparr>bnd_id = js ''a'', xStart = 0, xEnd = 100\<rparr>, \<lparr>bnd_id = js ''b'', xStart = 110, xEnd = 160\<rparr>,
      \<lparr>bnd_id = js ''c'', xStart = 170, xEnd = 200\<rparr>]"

definition exampleFragments :: "textBlock list" where
  \<comment> \<open>mean \<open>x\<close>: 20, 50 (a text with a tab and a newline), 105 (in the gap), 120 (no
      description), 110 (the start of a range), 160 (the end of a range); and a fragment
      without a box\<close>
  "exampleFragments =
     [exampleBlock ''K1'' 10 30,
      \<lparr>tb_description = Some (js '' 43.5'' @ [9, 10] @ js ''D ''), boundingBox = Some (exampleBox 40 60)\<rparr>,
      exampleBlock ''gap'' 100 110,
      \<lparr>tb_description = None, boundingBox = Some (exampleBox 110 130)\<rparr>,
      exampleBlock ''7.2'' 100 120,
      exampleBlock ''edge'' 150 170,
      \<lparr>tb_description = Some (js ''lost''), boundingBox = None\<rparr>]"

definition exampleDetector :: "annotation list \<Rightarrow> unit \<Rightarrow> annotation list option option" where
  "exampleDetector detections buffer = Some (Some detections)"

definition rightColumnPage :: "annotation list" where
  \<comment> \<open>a page 1000 pixels wide whose two words stand near its right edge\<close>
  "rightColumnPage =
     [exampleWord ''K1 43.50'' 0 1000, exampleWord ''K1'' 880 920, exampleWord ''43.50'' 930 990]"

definition depthFirstPage :: "annotation list" where
  \<comment> \<open>a page 1000 pixels wide: \<open>Depth\<close> around \<open>x = 400\<close>, then \<open>K1\<close> around \<open>x = 100\<close>\<close>
  "depthFirstPage =
     [exampleWord ''Depth K1'' 0 1000, exampleWord ''Depth'' 380 420, exampleWord ''K1'' 80 120]"

section \<open>Evaluation lemmas\<close>

lemma js_simps: "js [] = []" "js (c # cs) = of_char c # js cs"
  by (simp_all add: js_def)

lemmas engine_simps = re_match_def re_test_def re_search_def grp_def truthy_def js_or_def
  classMatches_def canonicalize_def isSpace_def isDigit_def
  sepClass_def numClass_def signedNumClass_def spaceClass_def digitClass_def
  js_simps trim_def

section \<open>Field gating\<close>

lemma requestedFields_pachy: "requestedFields (js ''pachy'') = [js ''pachy'']"
  by (simp add: requestedFields_def js_simps trim_def isSpace_def toLowerCase_def lowerUnit_def)

lemma wanted_pachy:
  "\<not> wanted [js ''pachy''] [''rh'', ''radius'']"
  "\<not> wanted [js ''pachy''] [''k'', ''keratometry'']"
  "\<not> wanted [js ''pachy''] [''axis'', ''astig'']"
  "\<not> wanted [js ''pachy''] [''q'']"
  "\<not> wanted [js ''pachy''] [''rper'', ''rmin'']"
  "wanted [js ''pachy''] [''pachy'']"
  "wanted [js ''pachy''] [''ac'', ''depth'', ''pupil'']"
  by (simp_all add: wanted_def extractAll_def js_simps)

lemma parseCorneaData_pachy:
  "parseCorneaData txt (js ''pachy'') =
     puts [(''AC_Depth'', acDepthValue txt), (''Pupil_Dia'', pupilDiaValue txt)]
       (puts [(''Pachy_Center'', extractValue txt pupilCenterPattern),
              (''Pachy_Apex'', extractValue txt (labelled ''Pachy Apex'')),
              (''Pachy_Thinnest'', extractValue txt thinnestPattern)] [])"
  unfolding parseCorneaData_def Let_def requestedFields_pachy comp_def
    frontRadius_def frontKeratometry_def frontAxisAstig_def
    frontQval_def frontRperRmin_def backRadius_def backKeratometry_def backAxisAstig_def
    backQval_def backRperRmin_def pachymetry_def acDepthPupilDia_def
  by (simp only: wanted_pachy if_True if_False)

text \<open>
  Claim C10. Whatever the text, the field list \<open>pachy\<close> gives the three pachymetry keys and
  also \<open>AC_Depth\<close> and \<open>Pupil_Dia\<close>, and no other key: the gate of the last group asks
  whether a requested field contains \<open>ac\<close>, and \<open>pachy\<close> does.
\<close>

theorem pachy_request_keys:
  "map fst (parseCorneaData txt (js ''pachy'')) =
     [js ''Pachy_Center'', js ''Pachy_Apex'', js ''Pachy_Thinnest'', js ''AC_Depth'',
      js ''Pupil_Dia'']"
  unfolding parseCorneaData_pachy by (simp add: puts_def js_simps)

section \<open>The keratometry example\<close>

lemma requestedFields_k: "requestedFields (js ''k'') = [js ''k'']"
  by (simp add: requestedFields_def js_simps trim_def isSpace_def toLowerCase_def lowerUnit_def)

lemma wanted_k:
  "\<not> wanted [js ''k''] [''rh'', ''radius'']"
  "wanted [js ''k''] [''k'', ''keratometry'']"
  "\<not> wanted [js ''k''] [''axis'', ''astig'']"
  "\<not> wanted [js ''k''] [''q'']"
  "\<not> wanted [js ''k''] [''rper'', ''rmin'']"
  "\<not> wanted [js ''k''] [''pachy'']"
  "\<not> wanted [js ''k''] [''ac'', ''depth'', ''pupil'']"
  by (simp_all add: wanted_def extractAll_def js_simps)

lemma parseCorneaData_k:
  "parseCorneaData txt (js ''k'') =
     puts [(''Back_K1'', extractValueWithNegative (snd (sections txt)) (labelledSigned ''K1'')),
           (''Back_K2'', extractValueWithNegative (snd (sections txt)) (labelledSigned ''K2'')),
           (''Back_Km'', extractValueWithNegative (snd (sections txt)) (labelledSigned ''Km''))]
       (puts [(''Front_K1'', extractValue (fst (sections txt)) (labelled ''K1'')),
              (''Front_K2'', extractValue (fst (sections txt)) (labelled ''K2'')),
              (''Front_Km'', extractValue (fst (sections txt)) (labelled ''Km''))] [])"
  unfolding parseCorneaData_def Let_def requestedFields_k comp_def
    frontRadius_def frontKeratometry_def frontAxisAstig_def
    frontQval_def frontRperRmin_def backRadius_def backKeratometry_def backAxisAstig_def
    backQval_def backRperRmin_def pachymetry_def acDepthPupilDia_def
  by (simp only: wanted_k if_True if_False)

lemma example_lines:
  "textLines (js ''Cornea Front\<newline>K1: 43.50\<newline>K2: 44.20\<newline>Cornea Back\<newline>K1: -6.10\<newline>K2: -6.30'') =
     [js ''Cornea Front'', js ''K1: 43.50'', js ''K2: 44.20'', js ''Cornea Back'', js ''K1: -6.10'',
      js ''K2: -6.30'']"
  by (simp add: textLines_def js_simps trim_def isSpace_def)

lemma example_headings:
  "re_test frontHeading (js ''Cornea Front'')"
  "\<not> re_test backHeading (js ''Cornea Front'')"
  "\<not> re_test backHeading (js ''K1: 43.50'')"
  "\<not> re_test backHeading (js ''K2: 44.20'')"
  "re_test backHeading (js ''Cornea Back'')"
  by (simp_all add: frontHeading_def backHeading_def engine_simps)

lemma example_sections:
  "sections (js ''Cornea Front\<newline>K1: 43.50\<newline>K2: 44.20\<newline>Cornea Back\<newline>K1: -6.10\<newline>K2: -6.30'') =
     (js ''Cornea Front K1: 43.50 K2: 44.20'', js ''Cornea Back K1: -6.10 K2: -6.30'')"
  unfolding sections_def example_lines Let_def
  by (simp add: example_headings slice_def) (simp add: js_simps)

lemma example_front:
  "extractValue (js ''Cornea Front K1: 43.50 K2: 44.20'') (labelled ''K1'') = Str (js ''43.50'')"
  "extractValue (js ''Cornea Front K1: 43.50 K2: 44.20'') (labelled ''K2'') = Str (js ''44.20'')"
  "extractValue (js ''Cornea Front K1: 43.50 K2: 44.20'') (labelled ''Km'') = Str (js ''-'')"
  by (simp_all add: extractValue_def labelled_def engine_simps)

lemma example_back:
  "extractValueWithNegative (js ''Cornea Back K1: -6.10 K2: -6.30'') (labelledSigned ''K1'') = Str (js ''-6.10'')"
  "extractValueWithNegative (js ''Cornea Back K1: -6.10 K2: -6.30'') (labelledSigned ''K2'') = Str (js ''-6.30'')"
  "extractValueWithNegative (js ''Cornea Back K1: -6.10 K2: -6.30'') (labelledSigned ''Km'') = Str (js ''-'')"
  by (simp_all add: extractValueWithNegative_def labelledSigned_def engine_simps)

text \<open>
  Claim C1. For the text of the two headings with \<open>K1\<close> and \<open>K2\<close> under each and the
  field list \<open>k\<close>, the result is exactly the six keratometry keys, front then back, with
  the four numbers read and \<open>Km\<close> at the sentinel on both sides; no other key is there.
\<close>

theorem keratometry_example:
  "parseCorneaData
     (js ''Cornea Front\<newline>K1: 43.50\<newline>K2: 44.20\<newline>Cornea Back\<newline>K1: -6.10\<newline>K2: -6.30'')
     (js ''k'') =
     [(js ''Front_K1'', Str (js ''43.50'')), (js ''Front_K2'', Str (js ''44.20'')),
      (js ''Front_Km'', Str (js ''-'')), (js ''Back_K1'', Str (js ''-6.10'')),
      (js ''Back_K2'', Str (js ''-6.30'')), (js ''Back_Km'', Str (js ''-''))]"
  unfolding parseCorneaData_k example_sections fst_conv snd_conv example_front example_back
  by (simp add: puts_def js_simps)

section \<open>The region compositor\<close>

lemma cropAll_ids:
  "cropAll B f rects = Fulfilled cs \<Longrightarrow> map ci_id cs = map rect_id rects"
proof (induction rects arbitrary: cs)
  case Nil
  then show ?case by simp
next
  case (Cons rect rects)
  then show ?case
    by (auto split: promise.splits if_splits)
qed

lemma cropAll_all_cropped:
  "cropAll B f rects = Fulfilled cs \<Longrightarrow> r \<in> set rects \<Longrightarrow> \<exists>b. cropRegion B f r = Fulfilled b"
proof (induction rects arbitrary: cs)
  case Nil
  then show ?case by simp
next
  case (Cons rect rects)
  then show ?case
    by (auto split: promise.splits if_splits)
qed

lemma drawAll_ids: "map bnd_id (drawAll x cs) = map ci_id cs"
  by (induction cs arbitrary: x) simp_all

lemma drawAll_width:
  "i < length cs \<Longrightarrow> xEnd (drawAll x cs ! i) = xStart (drawAll x cs ! i) + ci_width (cs ! i)"
proof (induction cs arbitrary: x i)
  case Nil
  then show ?case by simp
next
  case (Cons c cs)
  then show ?case by (cases i) simp_all
qed

lemma drawAll_start_ge: "i < length cs \<Longrightarrow> x \<le> xStart (drawAll x cs ! i)"
proof (induction cs arbitrary: x i)
  case Nil
  then show ?case by simp
next
  case (Cons c cs)
  show ?case
  proof (cases i)
    case 0
    then show ?thesis by simp
  next
    case (Suc k)
    with Cons.prems have "k < length cs" by simp
    from Cons.IH[OF this, of "x + ci_width c + GAP"] Suc show ?thesis by simp
  qed
qed

lemma drawAll_gap:
  "Suc i < length cs \<Longrightarrow> xStart (drawAll x cs ! Suc i) = xEnd (drawAll x cs ! i) + GAP"
proof (induction cs arbitrary: x i)
  case Nil
  then show ?case by simp
next
  case (Cons c cs)
  show ?case
  proof (cases i)
    case 0
    with Cons.prems obtain d ds where "cs = d # ds" by (cases cs) auto
    with 0 show ?thesis by simp
  next
    case (Suc k)
    with Cons.prems have "Suc k < length cs" by simp
    from Cons.IH[OF this, of "x + ci_width c + GAP"] Suc show ?thesis by simp
  qed
qed

lemma drawAll_ordered:
  "i < j \<Longrightarrow> j < length cs \<Longrightarrow> xEnd (drawAll x cs ! i) + GAP \<le> xStart (drawAll x cs ! j)"
proof (induction cs arbitrary: x i j)
  case Nil
  then show ?case by simp
next
  case (Cons c cs)
  from Cons.prems obtain k where j: "j = Suc k" by (cases j) auto
  with Cons.prems have k: "k < length cs" by simp
  show ?case
  proof (cases i)
    case 0
    from drawAll_start_ge[OF k, of "x + ci_width c + GAP"] 0 j show ?thesis by simp
  next
    case (Suc l)
    with Cons.prems j have "l < k" by simp
    from Cons.IH[OF this k, of "x + ci_width c + GAP"] Suc j show ?thesis by simp
  qed
qed

lemma foldl_sum_widths:
  "foldl (\<lambda>sum img. sum + ci_width img) a cs = a + sum_list (map ci_width cs)"
  by (induction cs arbitrary: a) simp_all

lemma combineRegions_Fulfilled:
  "combineRegions B f rects = Fulfilled res \<Longrightarrow>
   \<exists>cs. cropAll B f rects = Fulfilled cs \<and>
     res = \<lparr>canvasWidth = totalWidth cs, canvasHeight = maxHeight cs, boundaries = drawAll 0 cs\<rparr>"
  by (auto simp: combineRegions_def split: promise.splits if_splits)

lemma combineRegions_ids:
  "combineRegions B f rects = Fulfilled res \<Longrightarrow> map bnd_id (boundaries res) = map rect_id rects"
  by (auto dest!: combineRegions_Fulfilled simp: drawAll_ids cropAll_ids)

lemmas compositor_simps = combineRegions_def cropRegion_def standardBrowser_def exampleRect_def
  canvasSize_def totalWidth_def maxHeight_def GAP_def

lemma example_composite:
  "combineRegions standardBrowser (Image 200 100)
     [exampleRect ''a'' (1/2) (1/2), exampleRect ''b'' (1/4) 1] =
   Fulfilled \<lparr>canvasWidth = 160, canvasHeight = Num 100,
     boundaries = [\<lparr>bnd_id = js ''a'', xStart = 0, xEnd = 100\<rparr>,
                   \<lparr>bnd_id = js ''b'', xStart = 110, xEnd = 160\<rparr>]\<rparr>"
  by (simp add: compositor_simps)

text \<open>
  Claim C2. When the compositor returns for a non-empty list of regions, the ranges
  carry the regions' identifiers in the regions' order, two different ranges have no
  pixel in common, each range starts \<open>GAP\<close> pixels after the one before it ends, each
  range is as wide as its crop, and the canvas is as wide as the crops together plus
  \<open>GAP\<close> for each of the \<open>n - 1\<close> joints.
\<close>

theorem composite_layout:
  assumes "combineRegions B f rects = Fulfilled res" and "rects \<noteq> []"
  shows "map bnd_id (boundaries res) = map rect_id rects \<and>
         (\<forall>i j. i < j \<and> j < length rects \<longrightarrow>
            {xStart (boundaries res ! i) ..< xEnd (boundaries res ! i)} \<inter>
            {xStart (boundaries res ! j) ..< xEnd (boundaries res ! j)} = {}) \<and>
         (\<forall>i. Suc i < length rects \<longrightarrow>
            xStart (boundaries res ! Suc i) = xEnd (boundaries res ! i) + GAP) \<and>
         (\<exists>croppedImages. cropAll B f rects = Fulfilled croppedImages \<and>
            (\<forall>i < length rects.
               xEnd (boundaries res ! i) - xStart (boundaries res ! i) = ci_width (croppedImages ! i)) \<and>
            canvasWidth res =
              int (sum_list (map ci_width croppedImages)) + int GAP * (int (length rects) - 1))"
proof -
  from combineRegions_Fulfilled[OF assms(1)]
  obtain cs where cs: "cropAll B f rects = Fulfilled cs"
    and res: "res = \<lparr>canvasWidth = totalWidth cs, canvasHeight = maxHeight cs,
                     boundaries = drawAll 0 cs\<rparr>"
    by blast
  have len: "length cs = length rects"
    using cropAll_ids[OF cs] by (metis length_map)
  have ids: "map bnd_id (boundaries res) = map rect_id rects"
    using assms(1) by (rule combineRegions_ids)
  have disj: "{xStart (boundaries res ! i) ..< xEnd (boundaries res ! i)} \<inter>
              {xStart (boundaries res ! j) ..< xEnd (boundaries res ! j)} = {}"
    if "i < j" "j < length rects" for i j
  proof -
    from that len have "xEnd (drawAll 0 cs ! i) + GAP \<le> xStart (drawAll 0 cs ! j)"
      by (intro drawAll_ordered) simp_all
    then show ?thesis by (auto simp: res)
  qed
  have gap: "xStart (boundaries res ! Suc i) = xEnd (boundaries res ! i) + GAP"
    if "Suc i < length rects" for i
    using that len by (simp add: res drawAll_gap)
  have widths: "xEnd (boundaries res ! i) - xStart (boundaries res ! i) = ci_width (cs ! i)"
    if "i < length rects" for i
    using that len by (simp add: res drawAll_width)
  have total: "canvasWidth res = int (sum_list (map ci_width cs)) + int GAP * (int (length rects) - 1)"
    by (simp add: res totalWidth_def foldl_sum_widths len)
  from ids disj gap widths total cs show ?thesis by blast
qed

theorem composite_layout_witness:
  "\<exists>res. combineRegions standardBrowser (Image 200 100)
            [exampleRect ''a'' (1/2) (1/2), exampleRect ''b'' (1/4) 1] = Fulfilled res \<and>
     [exampleRect ''a'' (1/2) (1/2), exampleRect ''b'' (1/4) 1] \<noteq> [] \<and>
     map bnd_id (boundaries res) = [js ''a'', js ''b''] \<and>
     xStart (boundaries res ! 1) = xEnd (boundaries res ! 0) + GAP \<and>
     canvasWidth res = 160"
proof -
  let ?rects = "[exampleRect ''a'' (1/2) (1/2), exampleRect ''b'' (1/4) 1]"
  let ?res = "\<lparr>canvasWidth = 160, canvasHeight = Num 100,
     boundaries = [\<lparr>bnd_id = js ''a'', xStart = 0, xEnd = 100\<rparr>,
                   \<lparr>bnd_id = js ''b'', xStart = 110, xEnd = 160\<rparr>]\<rparr>"
  have ne: "?rects \<noteq> []" by simp
  from composite_layout[OF example_composite ne]
  have "map bnd_id (boundaries ?res) = map rect_id ?rects"
    and "xStart (boundaries ?res ! Suc 0) = xEnd (boundaries ?res ! 0) + GAP"
    by simp_all
  with example_composite show ?thesis
    by (intro exI[of _ ?res]) (simp add: exampleRect_def)
qed

lemma cropRegion_outcome:
  assumes "context2d B"
  shows "cropRegion B (Image nw nh) r = Rejected CouldNotCreateBlob \<or>
         (\<exists>b. cropRegion B (Image nw nh) r = Fulfilled b)"
  using assms by (simp add: cropRegion_def Let_def)

lemma cropAll_no_blob:
  assumes "context2d B" and "\<forall>b. loads B b" and "r \<in> set rects"
    and "cropRegion B (Image nw nh) r = Rejected CouldNotCreateBlob"
  shows "cropAll B (Image nw nh) rects = Rejected CouldNotCreateBlob"
  using assms(3)
proof (induction rects)
  case Nil
  then show ?case by simp
next
  case (Cons rect rects)
  from cropRegion_outcome[OF assms(1), of nw nh rect]
  consider "cropRegion B (Image nw nh) rect = Rejected CouldNotCreateBlob"
    | b where "cropRegion B (Image nw nh) rect = Fulfilled b"
    by blast
  then show ?case
  proof cases
    case 1
    then show ?thesis by simp
  next
    case 2
    with assms(4) have "r \<noteq> rect" by auto
    with Cons.prems have "r \<in> set rects" by simp
    from Cons.IH[OF this] 2 assms(2) show ?thesis by simp
  qed
qed

lemma degenerate_not_encoded:
  assumes "\<forall>w h. encodes B w h \<longrightarrow> 0 < w \<and> 0 < h"
    and "canvasSize 300 (multiply B (rect_width r) (of_nat nw)) = 0 \<or>
         canvasSize 150 (multiply B (rect_height r) (of_nat nh)) = 0"
  shows "\<not> encodes B (canvasSize 300 (multiply B (rect_width r) (of_nat nw)))
                     (canvasSize 150 (multiply B (rect_height r) (of_nat nh)))"
proof
  assume "encodes B (canvasSize 300 (multiply B (rect_width r) (of_nat nw)))
                    (canvasSize 150 (multiply B (rect_height r) (of_nat nh)))"
  with assms(1) have "0 < canvasSize 300 (multiply B (rect_width r) (of_nat nw)) \<and>
                      0 < canvasSize 150 (multiply B (rect_height r) (of_nat nh))"
    by blast
  with assms(2) show False by auto
qed

text \<open>
  Claim C7, as stated, fails: a rectangle of width \<open>0\<close> between two good ones makes the
  crop give no blob; \<open>cropRegion\<close> rejects and so does the whole composition. No layout
  without the region is returned.
\<close>

theorem degenerate_region_counterexample:
  "cropRegion standardBrowser (Image 200 100) (exampleRect ''b'' 0 1) = Rejected CouldNotCreateBlob \<and>
   combineRegions standardBrowser (Image 200 100)
     [exampleRect ''a'' (1/2) (1/2), exampleRect ''b'' 0 1, exampleRect ''c'' (1/4) 1] =
   Rejected CouldNotCreateBlob"
  by (simp add: compositor_simps)

text \<open>
  Claim C7, amended. The compositor skips nothing. Take a browser that gives no blob for
  a canvas without pixels, and a list with a region whose crop, as the canvas takes it,
  has width or height \<open>0\<close>. If the browser provides a drawing context and loads every
  blob, \<open>cropRegion\<close> rejects for that region with \<open>Could not create blob\<close> and
  \<open>combineRegions\<close> rejects with the same error. In any such browser, \<open>cropRegion\<close> gives
  no blob for that region and \<open>combineRegions\<close> returns no layout for the list. And
  whenever \<open>combineRegions\<close> does return, its layout has one range for each region of
  its input, in the input's order.
\<close>

theorem no_partial_layout:
  "((\<forall>w h. encodes B w h \<longrightarrow> 0 < w \<and> 0 < h) \<and> r \<in> set rects \<and>
      (canvasSize 300 (multiply B (rect_width r) (of_nat nw)) = 0 \<or>
       canvasSize 150 (multiply B (rect_height r) (of_nat nh)) = 0) \<longrightarrow>
      (context2d B \<and> (\<forall>b. loads B b) \<longrightarrow>
         cropRegion B (Image nw nh) r = Rejected CouldNotCreateBlob \<and>
         combineRegions B (Image nw nh) rects = Rejected CouldNotCreateBlob) \<and>
      (\<forall>b. cropRegion B (Image nw nh) r \<noteq> Fulfilled b) \<and>
      (\<forall>res. combineRegions B (Image nw nh) rects \<noteq> Fulfilled res)) \<and>
   (combineRegions B' f' rects' = Fulfilled res' \<longrightarrow>
      map bnd_id (boundaries res') = map rect_id rects')"
proof (intro conjI impI allI)
  assume a: "(\<forall>w h. encodes B w h \<longrightarrow> 0 < w \<and> 0 < h) \<and> r \<in> set rects \<and>
      (canvasSize 300 (multiply B (rect_width r) (of_nat nw)) = 0 \<or>
       canvasSize 150 (multiply B (rect_height r) (of_nat nh)) = 0)"
    and w: "context2d B \<and> (\<forall>b. loads B b)"
  from a have "\<not> encodes B (canvasSize 300 (multiply B (rect_width r) (of_nat nw)))
                     (canvasSize 150 (multiply B (rect_height r) (of_nat nh)))"
    using degenerate_not_encoded[of B r nw nh] by blast
  with w show rej: "cropRegion B (Image nw nh) r = Rejected CouldNotCreateBlob"
    by (simp add: cropRegion_def Let_def)
  from w a have "cropAll B (Image nw nh) rects = Rejected CouldNotCreateBlob"
    using cropAll_no_blob[of B r rects nw nh] rej by blast
  then show "combineRegions B (Image nw nh) rects = Rejected CouldNotCreateBlob"
    by (simp add: combineRegions_def)
next
  assume a: "(\<forall>w h. encodes B w h \<longrightarrow> 0 < w \<and> 0 < h) \<and> r \<in> set rects \<and>
      (canvasSize 300 (multiply B (rect_width r) (of_nat nw)) = 0 \<or>
       canvasSize 150 (multiply B (rect_height r) (of_nat nh)) = 0)"
  then have ne: "\<not> encodes B (canvasSize 300 (multiply B (rect_width r) (of_nat nw)))
                     (canvasSize 150 (multiply B (rect_height r) (of_nat nh)))"
    using degenerate_not_encoded[of B r nw nh] by blast
  show nb: "cropRegion B (Image nw nh) r \<noteq> Fulfilled b" for b
    using ne by (simp add: cropRegion_def Let_def)
  show "combineRegions B (Image nw nh) rects \<noteq> Fulfilled res" for res
  proof
    assume "combineRegions B (Image nw nh) rects = Fulfilled res"
    then obtain cs where "cropAll B (Image nw nh) rects = Fulfilled cs"
      by (auto dest: combineRegions_Fulfilled)
    from cropAll_all_cropped[OF this, of r] a
    obtain b where "cropRegion B (Image nw nh) r = Fulfilled b" by blast
    with nb show False by blast
  qed
next
  assume "combineRegions B' f' rects' = Fulfilled res'"
  then show "map bnd_id (boundaries res') = map rect_id rects'"
    by (rule combineRegions_ids)
qed

theorem no_partial_layout_witness:
  "cropRegion standardBrowser (Image 200 100) (exampleRect ''b'' 0 1) = Rejected CouldNotCreateBlob \<and>
   combineRegions standardBrowser (Image 200 100)
     [exampleRect ''a'' (1/2) (1/2), exampleRect ''b'' 0 1, exampleRect ''c'' (1/4) 1] =
   Rejected CouldNotCreateBlob \<and>
   combineRegions standardBrowser (Image 200 100)
     [exampleRect ''a'' (1/2) (1/2), exampleRect ''b'' 0 1, exampleRect ''c'' (1/4) 1] \<noteq>
   Fulfilled \<lparr>canvasWidth = 160, canvasHeight = Num 100,
     boundaries = [\<lparr>bnd_id = js ''a'', xStart = 0, xEnd = 100\<rparr>,
                   \<lparr>bnd_id = js ''c'', xStart = 110, xEnd = 160\<rparr>]\<rparr> \<and>
   map bnd_id [\<lparr>bnd_id = js ''a'', xStart = 0, xEnd = 100\<rparr>,
               \<lparr>bnd_id = js ''b'', xStart = 110, xEnd = 160\<rparr>] =
   map rect_id [exampleRect ''a'' (1/2) (1/2), exampleRect ''b'' (1/4) 1]"
proof -
  let ?rects = "[exampleRect ''a'' (1/2) (1/2), exampleRect ''b'' 0 1, exampleRect ''c'' (1/4) 1]"
  have std: "\<forall>w h. encodes standardBrowser w h \<longrightarrow> 0 < w \<and> 0 < h"
    by (simp add: standardBrowser_def)
  have works: "context2d standardBrowser \<and> (\<forall>b. loads standardBrowser b)"
    by (simp add: standardBrowser_def)
  have mem: "exampleRect ''b'' 0 1 \<in> set ?rects" by simp
  have deg: "canvasSize 300 (multiply standardBrowser (rect_width (exampleRect ''b'' 0 1)) (of_nat 200)) = 0"
    by (simp add: exampleRect_def canvasSize_def standardBrowser_def)
  from no_partial_layout[of standardBrowser "exampleRect ''b'' 0 1" ?rects 200 100
      standardBrowser "Image 200 100" "[exampleRect ''a'' (1/2) (1/2), exampleRect ''b'' (1/4) 1]"
      "\<lparr>canvasWidth = 160, canvasHeight = Num 100,
        boundaries = [\<lparr>bnd_id = js ''a'', xStart = 0, xEnd = 100\<rparr>,
                      \<lparr>bnd_id = js ''b'', xStart = 110, xEnd = 160\<rparr>]\<rparr>"]
    std works mem deg example_composite
  show ?thesis by simp
qed

section \<open>Full-page attribution\<close>

lemma pushMissing_eq:
  "pushMissing main combined ext = combined @ filter (\<lambda>b. b \<notin> set main) ext"
  by (induction ext arbitrary: combined) simp_all

lemma distinct_slice1: "distinct (slice1 detections)"
  unfolding slice1_def by (intro distinct_drop) (simp add: distinct_enumerate)

lemma combinedBlocks_eq:
  "combinedBlocks ds =
     mainDataBlocks ds @ filter (\<lambda>b. b \<notin> set (mainDataBlocks ds)) (extendedDataBlocks ds)"
  by (simp add: combinedBlocks_def pushMissing_eq)

lemma distinct_combinedBlocks: "distinct (combinedBlocks ds)"
  unfolding combinedBlocks_eq
  by (auto simp: mainDataBlocks_def extendedDataBlocks_def distinct_slice1)

lemma set_combinedBlocks:
  "set (combinedBlocks ds) = set (mainDataBlocks ds) \<union> set (extendedDataBlocks ds)"
  unfolding combinedBlocks_eq by auto

lemma POST_full:
  assumes "textDetection buffer = Some (Some ds)" and "ds \<noteq> []"
  shows "POST textDetection (Some buffer) (js ''full'') =
           Json (if joinOpt [10] (map (\<lambda>b. description (snd b)) (combinedBlocks ds)) \<noteq> []
                 then joinOpt [10] (map (\<lambda>b. description (snd b)) (combinedBlocks ds))
                 else summaryText ds)
             (combinedBlocks ds)"
  using assms by (simp add: POST_def Let_def)

lemmas route_simps = mainDataBlocks_def extendedDataBlocks_def slice1_def enumerate_eq_zip
  isMain_def isExtended_def leftThreshold_def extendedThreshold_def imageWidth_def
  exampleWord_def exampleBox_def xOr0_def avgX_def isRelevant_def toLowerCase_def lowerUnit_def
  js_simps

lemma rightColumnPage_blocks:
  "mainDataBlocks rightColumnPage = []" "extendedDataBlocks rightColumnPage = []"
  by (simp_all add: rightColumnPage_def route_simps)

lemma depthFirstPage_blocks:
  "mainDataBlocks depthFirstPage = [(2, exampleWord ''K1'' 80 120)]"
  "extendedDataBlocks depthFirstPage = [(1, exampleWord ''Depth'' 380 420)]"
  by (simp_all add: depthFirstPage_def route_simps)

text \<open>
  Claim C4, as stated, fails: on a page whose only words stand in the right half, the
  union is empty and the word list is not; the route answers with the summary text and
  no blocks, not with the words joined by newlines.
\<close>

theorem unfiltered_fallback_counterexample:
  "POST (exampleDetector rightColumnPage) (Some ()) (js ''full'') = Json (js ''K1 43.50'') [] \<and>
   map snd (slice1 rightColumnPage) = [exampleWord ''K1'' 880 920, exampleWord ''43.50'' 930 990]"
proof -
  have "exampleDetector rightColumnPage () = Some (Some rightColumnPage)"
    by (simp add: exampleDetector_def)
  moreover have "rightColumnPage \<noteq> []" by (simp add: rightColumnPage_def)
  ultimately have "POST (exampleDetector rightColumnPage) (Some ()) (js ''full'') =
      Json (summaryText rightColumnPage) []"
    by (simp add: POST_full combinedBlocks_eq rightColumnPage_blocks joinOpt_def)
  moreover have "summaryText rightColumnPage = js ''K1 43.50''"
    by (simp add: rightColumnPage_def summaryText_def exampleWord_def)
  moreover have "map snd (slice1 rightColumnPage) =
      [exampleWord ''K1'' 880 920, exampleWord ''43.50'' 930 990]"
    by (simp add: rightColumnPage_def slice1_def enumerate_eq_zip)
  ultimately show ?thesis by simp
qed

text \<open>
  Claim C4, amended. In full-page attribution, when the main and the extended set are
  both empty, the route answers with the whole-image summary text and an empty block
  list; the unfiltered word list is not used.
\<close>

theorem full_page_summary_fallback:
  assumes "textDetection buffer = Some (Some ds)" and "ds \<noteq> []"
    and "mainDataBlocks ds = []" and "extendedDataBlocks ds = []"
  shows "POST textDetection (Some buffer) (js ''full'') = Json (summaryText ds) []"
  unfolding POST_full[of textDetection buffer ds, OF assms(1,2)] combinedBlocks_eq assms(3,4)
  by (simp add: joinOpt_def)

theorem full_page_summary_fallback_witness:
  "exampleDetector rightColumnPage () = Some (Some rightColumnPage) \<and> rightColumnPage \<noteq> [] \<and>
   mainDataBlocks rightColumnPage = [] \<and> extendedDataBlocks rightColumnPage = [] \<and>
   POST (exampleDetector rightColumnPage) (Some ()) (js ''full'') =
     Json (summaryText rightColumnPage) []"
proof -
  have 1: "exampleDetector rightColumnPage () = Some (Some rightColumnPage)"
    by (simp add: exampleDetector_def)
  have 2: "rightColumnPage \<noteq> []" by (simp add: rightColumnPage_def)
  from full_page_summary_fallback[of "exampleDetector rightColumnPage" "()" rightColumnPage,
      OF 1 2 rightColumnPage_blocks] 1 2 rightColumnPage_blocks
  show ?thesis by simp
qed

text \<open>
  Claim C5, as stated, fails: the detector reports \<open>Depth\<close> (extended set) before \<open>K1\<close>
  (main set), and the route returns \<open>K1\<close> first.
\<close>

theorem detector_order_counterexample:
  "textBlocks (POST (exampleDetector depthFirstPage) (Some ()) (js ''full'')) =
     [(2, exampleWord ''K1'' 80 120), (1, exampleWord ''Depth'' 380 420)]"
proof -
  have "exampleDetector depthFirstPage () = Some (Some depthFirstPage)"
    by (simp add: exampleDetector_def)
  moreover have "depthFirstPage \<noteq> []" by (simp add: depthFirstPage_def)
  ultimately show ?thesis
    by (simp add: POST_full combinedBlocks_eq depthFirstPage_blocks)
qed

text \<open>
  Claim C5, amended. In full-page attribution the returned blocks are the main set in
  detector order followed by the blocks of the extended set that are not in the main
  set, in detector order; no block appears twice, and the blocks returned are exactly
  those of the two sets.
\<close>

theorem full_page_blocks:
  assumes "textDetection buffer = Some (Some ds)" and "ds \<noteq> []"
  shows "textBlocks (POST textDetection (Some buffer) (js ''full'')) =
           mainDataBlocks ds @ filter (\<lambda>b. b \<notin> set (mainDataBlocks ds)) (extendedDataBlocks ds) \<and>
         distinct (textBlocks (POST textDetection (Some buffer) (js ''full''))) \<and>
         set (textBlocks (POST textDetection (Some buffer) (js ''full''))) =
           set (mainDataBlocks ds) \<union> set (extendedDataBlocks ds)"
  unfolding POST_full[of textDetection buffer ds, OF assms]
  using combinedBlocks_eq distinct_combinedBlocks set_combinedBlocks by simp

theorem full_page_blocks_witness:
  "exampleDetector depthFirstPage () = Some (Some depthFirstPage) \<and> depthFirstPage \<noteq> [] \<and>
   distinct (textBlocks (POST (exampleDetector depthFirstPage) (Some ()) (js ''full''))) \<and>
   set (textBlocks (POST (exampleDetector depthFirstPage) (Some ()) (js ''full''))) =
     {(2, exampleWord ''K1'' 80 120), (1, exampleWord ''Depth'' 380 420)}"
proof -
  have 1: "exampleDetector depthFirstPage () = Some (Some depthFirstPage)"
    by (simp add: exampleDetector_def)
  have 2: "depthFirstPage \<noteq> []" by (simp add: depthFirstPage_def)
  from full_page_blocks[of "exampleDetector depthFirstPage" "()" depthFirstPage, OF 1 2] 1 2
  show ?thesis by (simp add: depthFirstPage_blocks)
qed

section \<open>Region attribution\<close>

lemma map_of_foldl_init:
  "map_of (foldl (\<lambda>results b. AList.update (bnd_id b) [] results) acc bs) k =
     (if k \<in> bnd_id ` set bs then Some [] else map_of acc k)"
  by (induction bs arbitrary: acc) (auto simp: update_conv')

lemma map_of_initResults:
  "map_of (initResults bs) k = (if k \<in> bnd_id ` set bs then Some [] else None)"
  by (simp add: initResults_def map_of_foldl_init)

lemma map_of_assignBlock:
  "map_of (assignBlock results a d bs) k =
     (case find (\<lambda>b. of_nat (xStart b) \<le> a \<and> a < of_nat (xEnd b)) bs of
        None \<Rightarrow> map_of results k
      | Some b \<Rightarrow>
          if bnd_id b = k then map_option (\<lambda>texts. texts @ [d]) (map_of results k)
          else map_of results k)"
  by (induction bs) (auto simp: map_of_map_entry split: option.splits)

lemma map_of_placeBlock:
  "map_of (placeBlock bs results blk) k =
     (if map_option bnd_id (regionOf bs blk) = Some k
      then map_option (\<lambda>texts. texts @ [tb_description blk]) (map_of results k)
      else map_of results k)"
  by (auto simp: placeBlock_def regionOf_def map_of_assignBlock split: option.splits)

lemma map_of_foldl_placeBlock:
  "map_of (foldl (placeBlock bs) results blocks) k =
     map_option (\<lambda>texts. texts @ regionTexts bs blocks k) (map_of results k)"
proof (induction blocks arbitrary: results)
  case Nil
  then show ?case by (simp add: regionTexts_def option.map_ident)
next
  case (Cons blk blocks)
  show ?case
  proof (cases "map_option bnd_id (regionOf bs blk) = Some k")
    case True
    have texts: "regionTexts bs (blk # blocks) k = tb_description blk # regionTexts bs blocks k"
      using True by (simp add: regionTexts_def)
    have step: "map_of (placeBlock bs results blk) k =
        map_option (\<lambda>texts. texts @ [tb_description blk]) (map_of results k)"
      by (subst map_of_placeBlock) (rule if_P[OF True])
    show ?thesis
      unfolding foldl_Cons Cons.IH step texts
      by (simp add: option.map_comp comp_def)
  next
    case False
    have texts: "regionTexts bs (blk # blocks) k = regionTexts bs blocks k"
      using False by (simp add: regionTexts_def)
    have step: "map_of (placeBlock bs results blk) k = map_of results k"
      by (subst map_of_placeBlock) (rule if_not_P[OF False])
    show ?thesis
      unfolding foldl_Cons Cons.IH step texts ..
  qed
qed

subsection \<open>The text of a region\<close>

text \<open>
  The white space of the program's \<open>trim\<close> and \<open>\s\<close> is the white space listed for the
  reference. Joining with a space, collapsing the runs of white space and trimming
  leaves the words with one space between them.
\<close>

lemma isSpace_blank: "isSpace = blank"
proof
  fix c show "isSpace c = blank c"
    unfolding isSpace_def blank_def by (simp; arith)
qed

lemma wordsOf_nonempty: "w \<in> set (wordsOf s) \<Longrightarrow> w \<noteq> []"
  by (induction s rule: wordsOf.induct) (auto split: if_splits)

lemma takeWhile_blank_append:
  "blank c \<Longrightarrow> takeWhile (\<lambda>x. \<not> blank x) (xs @ c # b) = takeWhile (\<lambda>x. \<not> blank x) xs"
  by (induction xs) simp_all

lemma dropWhile_blank_append:
  "blank c \<Longrightarrow> dropWhile (\<lambda>x. \<not> blank x) (xs @ c # b) = dropWhile (\<lambda>x. \<not> blank x) xs @ c # b"
  by (induction xs) simp_all

lemma wordsOf_append_blank: "blank c \<Longrightarrow> wordsOf (a @ c # b) = wordsOf a @ wordsOf b"
proof (induction a rule: wordsOf.induct)
  case 1
  then show ?case by simp
next
  case (2 x xs)
  then show ?case by (simp add: takeWhile_blank_append dropWhile_blank_append)
qed

lemma blank_32: "blank 32"
  by (simp add: blank_def)

lemma wordsOf_join: "wordsOf (join [32] ss) = concat (map wordsOf ss)"
proof (induction "[32::nat]" ss rule: join.induct)
  case 1
  then show ?case by simp
next
  case (2 s)
  then show ?case by simp
next
  case (3 s t ts)
  then show ?case by (simp add: wordsOf_append_blank[OF blank_32])
qed

lemma wordsOf_joinOpt:
  "wordsOf (joinOpt (js '' '') texts) =
     concat (map (\<lambda>t. case t of None \<Rightarrow> [] | Some s \<Rightarrow> wordsOf s) texts)"
proof -
  have "wordsOf (case t of None \<Rightarrow> [] | Some s \<Rightarrow> s) = (case t of None \<Rightarrow> [] | Some s \<Rightarrow> wordsOf s)"
    for t :: "jsstring option"
    by (cases t) simp_all
  then show ?thesis
    by (simp add: joinOpt_def js_simps wordsOf_join comp_def)
qed

lemma wordsOf_dropWhile: "wordsOf (dropWhile blank s) = wordsOf s"
  by (induction s) simp_all

lemma spaced_Nil: "spaced [] = []"
  by (simp add: spaced_def)

lemma spaced_letter: "spaced ((c # w) # ws) = c # spaced (w # ws)"
  by (simp add: spaced_def)

lemma spaced_single: "spaced ([c] # ws) = (if ws = [] then [c] else c # 32 # spaced ws)"
  by (cases ws) (simp_all add: spaced_def)

lemma spaced_eq_Nil: "\<forall>w \<in> set ws. w \<noteq> [] \<Longrightarrow> spaced ws = [] \<longleftrightarrow> ws = []"
  by (cases ws) (auto simp: spaced_def)

lemma trimEnd_Cons:
  "rev (dropWhile P (rev (c # t))) =
     (if rev (dropWhile P (rev t)) = [] \<and> P c then [] else c # rev (dropWhile P (rev t)))"
  by (auto simp: dropWhile_append dropWhile_eq_Nil_conv)

lemma trimEnd_collapsed:
  "rev (dropWhile blank (rev (replaceSpaces s))) =
     (case s of
        [] \<Rightarrow> []
      | c # cs \<Rightarrow>
          if blank c then (if wordsOf cs = [] then [] else 32 # spaced (wordsOf cs))
          else spaced (wordsOf s))"
proof (induction s rule: replaceSpaces.induct)
  case 1
  then show ?case by (simp add: spaced_Nil)
next
  case (2 c cs)
  show ?case
  proof (cases "blank c")
    case True
    let ?d = "dropWhile blank cs"
    have step: "rev (dropWhile blank (rev (replaceSpaces (c # cs)))) =
        (if rev (dropWhile blank (rev (replaceSpaces ?d))) = [] then []
         else 32 # rev (dropWhile blank (rev (replaceSpaces ?d))))"
      using True by (simp only: replaceSpaces.simps isSpace_blank if_True trimEnd_Cons blank_32 simp_thms)
    have ih: "rev (dropWhile blank (rev (replaceSpaces ?d))) =
        (case ?d of [] \<Rightarrow> []
         | x # xs \<Rightarrow> if blank x then (if wordsOf xs = [] then [] else 32 # spaced (wordsOf xs))
                     else spaced (wordsOf ?d))"
      using "2.IH"(1)[unfolded isSpace_blank, OF True] .
    have rhs: "(case c # cs of [] \<Rightarrow> []
         | x # xs \<Rightarrow> if blank x then (if wordsOf xs = [] then [] else 32 # spaced (wordsOf xs))
                     else spaced (wordsOf (c # cs))) =
        (if wordsOf cs = [] then [] else 32 # spaced (wordsOf cs))"
      using True by (simp del: wordsOf.simps)
    show ?thesis
    proof (cases ?d)
      case Nil
      have w: "wordsOf cs = []" using wordsOf_dropWhile[of cs] unfolding Nil by simp
      have d: "rev (dropWhile blank (rev (replaceSpaces ?d))) = []"
        unfolding Nil by simp
      show ?thesis unfolding rhs step d w by simp
    next
      case (Cons x xs)
      then have nb: "\<not> blank x" by (metis hd_dropWhile list.sel(1) list.distinct(1))
      have w: "wordsOf cs = wordsOf (x # xs)" using wordsOf_dropWhile[of cs] unfolding Cons by simp
      from nb have ne: "wordsOf (x # xs) \<noteq> []" by simp
      have sne: "spaced (wordsOf (x # xs)) \<noteq> []"
        using spaced_eq_Nil[of "wordsOf (x # xs)"] wordsOf_nonempty[of _ "x # xs"] ne by blast
      have d: "rev (dropWhile blank (rev (replaceSpaces ?d))) = spaced (wordsOf (x # xs))"
        unfolding ih unfolding Cons using nb by (simp del: wordsOf.simps)
      show ?thesis unfolding rhs step d w using ne sne by (simp del: wordsOf.simps)
    qed
  next
    case False
    have step: "rev (dropWhile blank (rev (replaceSpaces (c # cs)))) =
        c # rev (dropWhile blank (rev (replaceSpaces cs)))"
      using False by (simp only: replaceSpaces.simps isSpace_blank if_False trimEnd_Cons simp_thms)
    have ih: "rev (dropWhile blank (rev (replaceSpaces cs))) =
        (case cs of [] \<Rightarrow> []
         | x # xs \<Rightarrow> if blank x then (if wordsOf xs = [] then [] else 32 # spaced (wordsOf xs))
                     else spaced (wordsOf cs))"
      using "2.IH"(2)[unfolded isSpace_blank, OF False] .
    show ?thesis
    proof (cases cs)
      case Nil
      show ?thesis unfolding step ih unfolding Nil using False by (simp add: spaced_def)
    next
      case (Cons x xs)
      show ?thesis
      proof (cases "blank x")
        case True
        show ?thesis unfolding step ih unfolding Cons using False True by (simp add: spaced_single)
      next
        case nb: False
        show ?thesis unfolding step ih unfolding Cons using False nb by (simp add: spaced_letter)
      qed
    qed
  qed
qed

lemma trim_collapsed: "trim (replaceSpaces s) = spaced (wordsOf s)"
proof (cases s)
  case Nil
  then show ?thesis by (simp add: trim_def spaced_Nil)
next
  case (Cons c cs)
  show ?thesis
  proof (cases "blank c")
    case True
    let ?d = "dropWhile blank cs"
    have head: "dropWhile blank (replaceSpaces ?d) = replaceSpaces ?d"
    proof (cases ?d)
      case Nil
      show ?thesis unfolding Nil by simp
    next
      case (Cons x xs)
      then have nb: "\<not> blank x" by (metis hd_dropWhile list.sel(1) list.distinct(1))
      show ?thesis unfolding Cons using nb by (simp add: isSpace_blank)
    qed
    have tail: "rev (dropWhile blank (rev (replaceSpaces ?d))) = spaced (wordsOf ?d)"
    proof (cases ?d)
      case Nil
      show ?thesis unfolding Nil by (simp add: spaced_Nil)
    next
      case (Cons x xs)
      then have nb: "\<not> blank x" by (metis hd_dropWhile list.sel(1) list.distinct(1))
      show ?thesis unfolding trimEnd_collapsed unfolding Cons using nb by (simp del: wordsOf.simps)
    qed
    have "replaceSpaces s = 32 # replaceSpaces ?d"
      unfolding Cons using True by (simp add: isSpace_blank)
    then have "trim (replaceSpaces s) = rev (dropWhile blank (rev (dropWhile blank (replaceSpaces ?d))))"
      by (simp add: trim_def isSpace_blank blank_32 del: replaceSpaces.simps)
    also have "\<dots> = spaced (wordsOf ?d)"
      unfolding head tail ..
    also have "\<dots> = spaced (wordsOf s)"
      unfolding Cons using True by (simp add: wordsOf_dropWhile)
    finally show ?thesis .
  next
    case False
    have "replaceSpaces s = c # replaceSpaces cs"
      unfolding Cons using False by (simp add: isSpace_blank)
    then have "dropWhile blank (replaceSpaces s) = replaceSpaces s"
      using False by simp
    then have "trim (replaceSpaces s) = rev (dropWhile blank (rev (replaceSpaces s)))"
      by (simp add: trim_def isSpace_blank)
    also have "\<dots> = spaced (wordsOf s)"
      unfolding trimEnd_collapsed unfolding Cons using False by (simp del: wordsOf.simps)
    finally show ?thesis .
  qed
qed

lemma finalText_regionText: "finalText texts = regionText texts"
proof -
  let ?ws = "concat (map (\<lambda>t. case t of None \<Rightarrow> [] | Some s \<Rightarrow> wordsOf s) texts)"
  have t: "trim (replaceSpaces (joinOpt (js '' '') texts)) = spaced ?ws"
    by (simp only: trim_collapsed wordsOf_joinOpt)
  have "\<forall>w \<in> set ?ws. w \<noteq> []"
    using wordsOf_nonempty by (auto split: option.splits)
  then have "spaced ?ws = [] \<longleftrightarrow> ?ws = []" by (rule spaced_eq_Nil)
  with t show ?thesis by (simp add: finalText_def regionText_def Let_def)
qed

lemma example_region_results:
  "parseRegionResults exampleFragments exampleLayout =
     [(js ''a'', js ''K1 43.5 D''), (js ''b'', js ''7.2''), (js ''c'', js ''-'')]"
  by (simp add: parseRegionResults_def exampleFragments_def exampleLayout_def placeBlock_def
      exampleBlock_def exampleBox_def avgX_def xOr0_def initResults_def finalText_def joinOpt_def
      trim_def isSpace_def js_simps)

text \<open>
  Claim C3. A region identifier of the layout list is a key of the result, and nothing
  else is. The value of a key is made from the texts of exactly those fragments whose
  region is a range with that identifier, in the fragments' order: a fragment has at most
  one region, the first range holding its mean \<open>x\<close>, and none when its mean \<open>x\<close> lies in
  a gap or outside all ranges (or it has no bounding box). The value is the words of
  those texts with one space between two words, which is what joining the texts with
  single spaces, collapsing every run of white space and trimming the ends leaves; it is
  the sentinel when there is no word. On the example: two fragments, one of them with a
  tab and a newline inside, go to the first region; a fragment without a description and
  the fragment at the start of the second range go to the second region; the fragment in
  the gap, the one at the end of a range and the one without a box go nowhere; the third
  region has no fragment and holds the sentinel.
\<close>

theorem region_attribution:
  "map_of (parseRegionResults blocks bs) k =
     (if k \<in> bnd_id ` set bs then Some (regionText (regionTexts bs blocks k)) else None) \<and>
   parseRegionResults exampleFragments exampleLayout =
     [(js ''a'', js ''K1 43.5 D''), (js ''b'', js ''7.2''), (js ''c'', js ''-'')]"
proof
  show "map_of (parseRegionResults blocks bs) k =
     (if k \<in> bnd_id ` set bs then Some (regionText (regionTexts bs blocks k)) else None)"
    by (simp add: parseRegionResults_def map_of_map map_of_foldl_placeBlock map_of_initResults
        finalText_regionText)
  show "parseRegionResults exampleFragments exampleLayout =
     [(js ''a'', js ''K1 43.5 D''), (js ''b'', js ''7.2''), (js ''c'', js ''-'')]"
    by (rule example_region_results)
qed

section \<open>The matcher\<close>

text \<open>
  Matching a class without regard to case, as \<open>classMatches\<close> computes it, is having a
  member whose canonical form is that of the input, which is how ECMAScript states it.
\<close>

lemma canonicalize_idem: "canonicalize (canonicalize c) = canonicalize c"
  by (auto simp: canonicalize_def)

lemma classMatches_canonical:
  "classMatches True cl c \<longleftrightarrow> (\<exists>a. inClass cl a \<and> canonicalize a = canonicalize c)"
proof
  assume "classMatches True cl c"
  then consider "inClass cl c" | "inClass cl (canonicalize c)"
    | "65 \<le> c \<and> c \<le> 90 \<and> inClass cl (c + 32)"
    by (auto simp: classMatches_def)
  then show "\<exists>a. inClass cl a \<and> canonicalize a = canonicalize c"
  proof cases
    case 1
    then show ?thesis by blast
  next
    case 2
    then show ?thesis using canonicalize_idem by blast
  next
    case 3
    then have "canonicalize (c + 32) = canonicalize c" by (simp add: canonicalize_def)
    with 3 show ?thesis by blast
  qed
next
  assume "\<exists>a. inClass cl a \<and> canonicalize a = canonicalize c"
  then obtain a where a: "inClass cl a" and eq: "canonicalize a = canonicalize c" by blast
  from eq have "a = c \<or> a = canonicalize c \<or> (65 \<le> c \<and> c \<le> 90 \<and> a = c + 32)"
    by (auto simp: canonicalize_def split: if_splits)
  with a show "classMatches True cl c" by (auto simp: classMatches_def)
qed


text \<open>A pattern that cannot start with a character of the class lets the class run out.\<close>

lemma hd_starRests_pred:
  assumes "\<And>c. amatch ci a c = P c"
  shows "\<exists>ws. starRests ci a s = dropWhile P s # ws"
  by (induction s) (auto simp: assms)

lemma seq_star_greedy:
  assumes "\<And>c. amatch ci a c = P c"
    and "\<And>c cs caps. P c \<Longrightarrow> rmatch ci n r caps (c # cs) = []"
  shows "concat (map (\<lambda>ys. rmatch ci n r caps ys) (starRests ci a s)) =
         rmatch ci n r caps (dropWhile P s)"
  by (induction s) (simp_all add: assms)

lemma rmatch_seq_plus_greedy:
  assumes "\<And>c. amatch ci a c = P c"
    and "\<And>c cs caps. P c \<Longrightarrow> rmatch ci n r caps (c # cs) = []"
  shows "rmatch ci n (Seq (Plus a) r) caps s =
         (if takeWhile P s = [] then [] else rmatch ci n r caps (dropWhile P s))"
proof (cases s)
  case Nil
  then show ?thesis by simp
next
  case (Cons c cs)
  show ?thesis
  proof (cases "P c")
    case True
    have "concat (map (\<lambda>(caps', rest). rmatch ci n r caps' rest) (map (Pair caps) (starRests ci a cs))) =
          concat (map (\<lambda>ys. rmatch ci n r caps ys) (starRests ci a cs))"
      by (simp add: comp_def)
    with True Cons show ?thesis
      by (simp add: assms(1) seq_star_greedy[of ci a P n r, OF assms])
  next
    case False
    with Cons show ?thesis by (simp add: assms(1))
  qed
qed

lemma rmatch_plus_None:
  assumes "\<And>c. amatch ci a c = P c" and "takeWhile P s = []"
  shows "rmatch ci n (Plus a) caps s = []"
  using assms(2) by (cases s) (auto simp: assms(1) split: if_splits)

lemma rmatch_plus_Some:
  assumes "\<And>c. amatch ci a c = P c" and "takeWhile P s \<noteq> []"
  shows "\<exists>ws. rmatch ci n (Plus a) caps s = (caps, dropWhile P s) # ws"
proof (cases s)
  case Nil
  with assms(2) show ?thesis by simp
next
  case (Cons c cs)
  with assms(2) have c: "P c" by (auto split: if_splits)
  from hd_starRests_pred[of ci a P cs, OF assms(1)] obtain ws
    where "starRests ci a cs = dropWhile P cs # ws" by blast
  with c Cons show ?thesis by (simp add: assms(1))
qed

text \<open>A literal text matches exactly when it is a prefix of the input, up to case with the flag.\<close>

lemma rmatch_lit:
  "rmatch ci n (lit w) caps s =
     (if length w \<le> length s \<and> list_all2 (\<lambda>a c. amatch ci (Lit a) c) w (take (length w) s)
      then [(caps, drop (length w) s)] else [])"
proof (induction w arbitrary: s)
  case Nil
  then show ?case by simp
next
  case (Cons a w)
  show ?case
  proof (cases s)
    case Nil
    then show ?thesis by simp
  next
    case (Cons c cs)
    then show ?thesis by (simp add: Cons.IH del: amatch.simps)
  qed
qed

lemma concat_map_single: "concat (map (\<lambda>(a, b). [(a, b)]) xs) = xs"
  by (induction xs) auto

lemma rmatch_Eps_fun: "rmatch ci n Eps = (\<lambda>caps s. [(caps, s)])"
  by (intro ext) simp

lemma rmatch_seq_eps: "rmatch ci n (Seq r Eps) caps s = rmatch ci n r caps s"
  by (simp add: rmatch_Eps_fun concat_map_single)

lemma rmatch_seq_atom:
  "rmatch ci n (Seq (Atom a) r) caps s =
     (case s of [] \<Rightarrow> [] | c # cs \<Rightarrow> if amatch ci a c then rmatch ci n r caps cs else [])"
  by (cases s) simp_all

lemma amatch_digitClass: "amatch False digitClass c = isDigit c"
  by (simp add: digitClass_def classMatches_def isDigit_def)

lemma isDigit_not_dot: "isDigit c \<Longrightarrow> c \<noteq> 46"
  by (auto simp: isDigit_def)

section \<open>The decimal pattern\<close>

lemma rmatch_fraction:
  "rmatch False n (Seq (Atom (Lit 46)) (Seq (Plus digitClass) Eps)) caps s =
     (case s of [] \<Rightarrow> []
      | p # tail \<Rightarrow> if p = 46 then rmatch False n (Plus digitClass) caps tail else [])"
  unfolding rmatch_seq_atom rmatch_seq_eps by (simp del: rmatch.simps split: list.splits)

lemma rmatch_decimal_body:
  "rmatch False n (Seq (Plus digitClass) (Seq (Atom (Lit 46)) (Seq (Plus digitClass) Eps))) caps s =
     (if takeWhile isDigit s = [] then []
      else case dropWhile isDigit s of
             [] \<Rightarrow> []
           | p # tail \<Rightarrow> if p = 46 then rmatch False n (Plus digitClass) caps tail else [])"
proof -
  have h: "rmatch False n (Seq (Atom (Lit 46)) (Seq (Plus digitClass) Eps)) caps' (c # cs) = []"
    if "isDigit c" for c cs caps'
    unfolding rmatch_fraction using isDigit_not_dot[OF that]
    by (simp del: rmatch.simps)
  have g: "rmatch False n (Seq (Plus digitClass) (Seq (Atom (Lit 46)) (Seq (Plus digitClass) Eps))) caps s =
      (if takeWhile isDigit s = [] then []
       else rmatch False n (Seq (Atom (Lit 46)) (Seq (Plus digitClass) Eps)) caps (dropWhile isDigit s))"
  proof (rule rmatch_seq_plus_greedy[where P = isDigit])
    show "amatch False digitClass c = isDigit c" for c by (rule amatch_digitClass)
    show "rmatch False n (Seq (Atom (Lit 46)) (Seq (Plus digitClass) Eps)) caps' (c # cs) = []"
      if "isDigit c" for c cs caps' using that by (rule h)
  qed
  show ?thesis
    by (subst g, subst rmatch_fraction) (rule refl)
qed

lemma rmatch_decimal_None:
  assumes "decimalAt s = None"
  shows "rmatch False n (snd decimalPattern) caps s = []"
proof -
  have "rmatch False n (Seq (Plus digitClass) (Seq (Atom (Lit 46)) (Seq (Plus digitClass) Eps))) caps s = []"
  proof (cases "takeWhile isDigit s = []")
    case True
    then show ?thesis unfolding rmatch_decimal_body by (simp del: rmatch.simps)
  next
    case whole: False
    show ?thesis
    proof (cases "dropWhile isDigit s")
      case Nil
      from whole show ?thesis unfolding rmatch_decimal_body Nil by (simp del: rmatch.simps)
    next
      case (Cons p tail)
      show ?thesis
      proof (cases "p = 46")
        case True
        with assms whole Cons have "takeWhile isDigit tail = []"
          by (simp add: decimalAt_def Let_def split: if_splits)
        from rmatch_plus_None[of False digitClass isDigit tail n caps, OF amatch_digitClass this]
        show ?thesis unfolding rmatch_decimal_body Cons using whole True
          by (simp del: rmatch.simps)
      next
        case False
        with whole show ?thesis unfolding rmatch_decimal_body Cons by (simp del: rmatch.simps)
      qed
    qed
  qed
  then show ?thesis by (simp add: decimalPattern_def del: rmatch.simps(6))
qed

lemma rmatch_decimal_Some:
  assumes "decimalAt s = Some d"
  shows "\<exists>ws. rmatch False n (snd decimalPattern) caps s =
           (AList.update 1 d caps, drop (length d) s) # ws"
proof -
  from assms obtain tail where rest: "dropWhile isDigit s = 46 # tail"
    and whole: "takeWhile isDigit s \<noteq> []" and fr: "takeWhile isDigit tail \<noteq> []"
    and d: "d = takeWhile isDigit s @ [46] @ takeWhile isDigit tail"
    by (auto simp: decimalAt_def Let_def split: list.splits if_splits)
  have "d @ dropWhile isDigit tail =
          takeWhile isDigit s @ 46 # (takeWhile isDigit tail @ dropWhile isDigit tail)"
    by (simp add: d del: takeWhile_dropWhile_id)
  also have "\<dots> = takeWhile isDigit s @ dropWhile isDigit s"
    by (simp add: rest)
  also have "\<dots> = s" by simp
  finally have sd: "d @ dropWhile isDigit tail = s" .
  have ds: "drop (length d) s = dropWhile isDigit tail"
    using sd by (metis append_eq_conv_conj)
  have "length s = length d + length (dropWhile isDigit tail)"
    using sd by (metis length_append)
  then have "take (length s - length (dropWhile isDigit tail)) s = take (length d) s"
    by simp
  also have "\<dots> = d" using sd by (metis append_eq_conv_conj)
  finally have ts: "take (length s - length (dropWhile isDigit tail)) s = d" .
  from rmatch_plus_Some[of False digitClass isDigit tail n caps, OF amatch_digitClass fr]
  obtain ws where "rmatch False n (Plus digitClass) caps tail = (caps, dropWhile isDigit tail) # ws"
    by blast
  with whole
  have "rmatch False n (Seq (Plus digitClass) (Seq (Atom (Lit 46)) (Seq (Plus digitClass) Eps))) caps s =
          (caps, dropWhile isDigit tail) # ws"
    unfolding rmatch_decimal_body rest by (simp del: rmatch.simps)
  then show ?thesis
    by (simp add: decimalPattern_def ts ds del: rmatch.simps(6))
qed

lemma execFrom_decimal:
  "map_option (\<lambda>m. grp m 1) (execFrom False n (snd decimalPattern) i s) =
     map_option Str (firstDecimal s)"
proof (induction s arbitrary: i)
  case Nil
  have "decimalAt [] = None" by (simp add: decimalAt_def)
  from rmatch_decimal_None[OF this] show ?case by simp
next
  case (Cons c cs)
  show ?case
  proof (cases "decimalAt (c # cs)")
    case None
    from rmatch_decimal_None[OF this] None show ?thesis by (simp add: Cons.IH del: One_nat_def)
  next
    case (Some d)
    from rmatch_decimal_Some[OF this, of n "[]"] obtain ws where
      "rmatch False n (snd decimalPattern) [] (c # cs) = ([(1, d)], drop (length d) (c # cs)) # ws"
      by auto
    with Some show ?thesis by (simp add: grp_def)
  qed
qed

lemma decimal_match:
  "(case re_match s decimalPattern of None \<Rightarrow> Str (js ''-'') | Some m \<Rightarrow> grp m 1) =
     Str (case firstDecimal s of None \<Rightarrow> js ''-'' | Some d \<Rightarrow> d)"
proof -
  have "fst decimalPattern = False" by (simp add: decimalPattern_def)
  with execFrom_decimal[of "length s" 0 s] show ?thesis
    by (auto simp: re_match_def split: option.splits)
qed

section \<open>The search for \<open>Depth\<close>\<close>

lemma find_map_Suc: "find P (map Suc xs) = map_option Suc (find (\<lambda>i. P (Suc i)) xs)"
  by (induction xs) simp_all

lemma occursAt_Suc: "occursAt w (c # cs) (Suc i) = occursAt w cs i"
  by (simp add: occursAt_def)

lemma firstOccurrence_Nil: "firstOccurrence w [] = (if occursAt w [] 0 then Some 0 else None)"
  by (simp add: firstOccurrence_def)

lemma firstOccurrence_Cons:
  "firstOccurrence w (c # cs) =
     (if occursAt w (c # cs) 0 then Some 0 else map_option Suc (firstOccurrence w cs))"
proof -
  have "[0..<Suc (Suc k)] = 0 # [Suc 0..<Suc (Suc k)]" for k
    by (rule upt_conv_Cons) simp
  then have "[0..<Suc (Suc k)] = 0 # map Suc [0..<Suc k]" for k
    by (simp only: map_Suc_upt)
  then have "[0..<Suc (length (c # cs))] = 0 # map Suc [0..<Suc (length cs)]"
    by (simp only: length_Cons)
  then show ?thesis
    by (simp add: firstOccurrence_def find_map_Suc occursAt_Suc del: upt_Suc)
qed

lemma rmatch_lit_occursAt:
  "rmatch True n (lit w) caps s = (if occursAt w s 0 then [(caps, drop (length w) s)] else [])"
  by (simp add: rmatch_lit occursAt_def)

lemma execFrom_lit_index:
  "map_option m_index (execFrom True n (lit w) i s) = map_option (\<lambda>j. i + j) (firstOccurrence w s)"
proof (induction s arbitrary: i)
  case Nil
  show ?case by (simp add: rmatch_lit_occursAt firstOccurrence_Nil)
next
  case (Cons c cs)
  show ?case
    by (simp add: rmatch_lit_occursAt firstOccurrence_Cons Cons.IH option.map_comp comp_def)
qed

lemma re_search_depth: "re_search s depthPattern = firstOccurrence (js ''Depth'') s"
  using execFrom_lit_index[of "length s" "js ''Depth''" 0 s]
  by (simp add: re_search_def re_match_def depthPattern_def option.map_ident)

text \<open>The matcher's case folding, on the word \<open>Depth\<close>, is the choice of letter case.\<close>

lemma canonicalize_letter:
  "canonicalize 68 = canonicalize c \<longleftrightarrow> c = 68 \<or> c = 100"
  "canonicalize 101 = canonicalize c \<longleftrightarrow> c = 69 \<or> c = 101"
  "canonicalize 112 = canonicalize c \<longleftrightarrow> c = 80 \<or> c = 112"
  "canonicalize 116 = canonicalize c \<longleftrightarrow> c = 84 \<or> c = 116"
  "canonicalize 104 = canonicalize c \<longleftrightarrow> c = 72 \<or> c = 104"
  by (auto simp: canonicalize_def)

lemma occursAt_startsWithDepth: "occursAt (js ''Depth'') s 0 \<longleftrightarrow> startsWithDepth s"
proof (cases "s = [] \<or> tl s = [] \<or> tl (tl s) = [] \<or> tl (tl (tl s)) = [] \<or> tl (tl (tl (tl s))) = []")
  case True
  then have "length s < 5"
    by (cases s; cases "tl s"; cases "tl (tl s)"; cases "tl (tl (tl s))"; cases "tl (tl (tl (tl s)))")
      auto
  moreover from True have "\<not> startsWithDepth s"
    by (cases s; cases "tl s"; cases "tl (tl s)"; cases "tl (tl (tl s))"; cases "tl (tl (tl (tl s)))")
      auto
  ultimately show ?thesis by (simp add: occursAt_def js_simps)
next
  case False
  then obtain c1 c2 c3 c4 c5 rest where s: "s = c1 # c2 # c3 # c4 # c5 # rest"
    by (cases s; cases "tl s"; cases "tl (tl s)"; cases "tl (tl (tl s))"; cases "tl (tl (tl (tl s)))")
      auto
  show ?thesis
    unfolding s by (simp add: occursAt_def js_simps canonicalize_letter)
qed

lemma fromDepth_firstOccurrence:
  "fromDepth s = map_option (\<lambda>i. drop i s) (firstOccurrence (js ''Depth'') s)"
proof (induction s)
  case Nil
  have "\<not> startsWithDepth []" by simp
  then show ?case by (simp add: firstOccurrence_Nil occursAt_startsWithDepth)
next
  case (Cons c cs)
  show ?case
    by (simp add: firstOccurrence_Cons occursAt_startsWithDepth Cons.IH option.map_comp comp_def
        del: startsWithDepth.simps)
qed

lemma afterColon_indexOf: "afterColon s = map_option (\<lambda>j. drop (Suc j) s) (indexOf 58 s)"
  by (induction s) (simp_all add: afterColon_def option.map_comp comp_def)

lemma acDepthValue_reference: "acDepthValue txt = Str (acDepthReference txt)"
  unfolding acDepthValue_def acDepthReference_def re_search_depth Let_def substring_def
    substringFrom_def fromDepth_firstOccurrence afterColon_indexOf
  by (simp add: decimal_match split: option.splits)

section \<open>Looking a key up in the result\<close>

lemma map_of_puts_other:
  "k \<notin> js ` fst ` set kvs \<Longrightarrow> map_of (puts kvs d) k = map_of d k"
  unfolding puts_def
  by (induction kvs arbitrary: d) (auto simp: update_conv')

lemma group_other:
  "k \<notin> js ` set [''Front_Rh'', ''Front_Rv'', ''Front_Rm''] \<Longrightarrow>
     map_of (frontRadius rf t d) k = map_of d k"
  "k \<notin> js ` set [''Front_K1'', ''Front_K2'', ''Front_Km''] \<Longrightarrow>
     map_of (frontKeratometry rf t d) k = map_of d k"
  "k \<notin> js ` set [''Front_Axis'', ''Front_Astig''] \<Longrightarrow>
     map_of (frontAxisAstig rf t d) k = map_of d k"
  "k \<notin> js ` set [''Front_Q-val''] \<Longrightarrow> map_of (frontQval rf t d) k = map_of d k"
  "k \<notin> js ` set [''Front_Rper'', ''Front_Rmin''] \<Longrightarrow>
     map_of (frontRperRmin rf t d) k = map_of d k"
  "k \<notin> js ` set [''Back_Rh'', ''Back_Rv'', ''Back_Rm''] \<Longrightarrow>
     map_of (backRadius rf t d) k = map_of d k"
  "k \<notin> js ` set [''Back_K1'', ''Back_K2'', ''Back_Km''] \<Longrightarrow>
     map_of (backKeratometry rf t d) k = map_of d k"
  "k \<notin> js ` set [''Back_Axis'', ''Back_Astig''] \<Longrightarrow>
     map_of (backAxisAstig rf t d) k = map_of d k"
  "k \<notin> js ` set [''Back_Q-val''] \<Longrightarrow> map_of (backQval rf t d) k = map_of d k"
  "k \<notin> js ` set [''Back_Rper'', ''Back_Rmin''] \<Longrightarrow>
     map_of (backRperRmin rf t d) k = map_of d k"
  "k \<notin> js ` set [''Pachy_Center'', ''Pachy_Apex'', ''Pachy_Thinnest''] \<Longrightarrow>
     map_of (pachymetry rf t d) k = map_of d k"
  "k \<notin> js ` set [''AC_Depth'', ''Pupil_Dia''] \<Longrightarrow>
     map_of (acDepthPupilDia rf t d) k = map_of d k"
  by (simp_all add: frontRadius_def frontKeratometry_def frontAxisAstig_def frontQval_def
      frontRperRmin_def backRadius_def backKeratometry_def backAxisAstig_def backQval_def
      backRperRmin_def pachymetry_def acDepthPupilDia_def map_of_puts_other)

lemma key_AC_Depth:
  "js ''AC_Depth'' \<notin> js ` set [''Front_Rh'', ''Front_Rv'', ''Front_Rm'']"
  "js ''AC_Depth'' \<notin> js ` set [''Front_K1'', ''Front_K2'', ''Front_Km'']"
  "js ''AC_Depth'' \<notin> js ` set [''Front_Axis'', ''Front_Astig'']"
  "js ''AC_Depth'' \<notin> js ` set [''Front_Q-val'']"
  "js ''AC_Depth'' \<notin> js ` set [''Front_Rper'', ''Front_Rmin'']"
  "js ''AC_Depth'' \<notin> js ` set [''Back_Rh'', ''Back_Rv'', ''Back_Rm'']"
  "js ''AC_Depth'' \<notin> js ` set [''Back_K1'', ''Back_K2'', ''Back_Km'']"
  "js ''AC_Depth'' \<notin> js ` set [''Back_Axis'', ''Back_Astig'']"
  "js ''AC_Depth'' \<notin> js ` set [''Back_Q-val'']"
  "js ''AC_Depth'' \<notin> js ` set [''Back_Rper'', ''Back_Rmin'']"
  "js ''AC_Depth'' \<notin> js ` set [''Pachy_Center'', ''Pachy_Apex'', ''Pachy_Thinnest'']"
  by (simp_all add: js_simps)

lemma acDepthPupilDia_AC_Depth:
  "map_of (acDepthPupilDia rf t d) (js ''AC_Depth'') =
     (if wanted rf [''ac'', ''depth'', ''pupil''] then Some (acDepthValue t)
      else map_of d (js ''AC_Depth''))"
  by (simp add: acDepthPupilDia_def puts_def update_conv' js_simps)

lemma lookup_AC_Depth:
  "map_of (parseCorneaData txt fieldNames) (js ''AC_Depth'') =
     (if wanted (requestedFields fieldNames) [''ac'', ''depth'', ''pupil'']
      then Some (acDepthValue txt) else None)"
  unfolding parseCorneaData_def Let_def comp_def
  by (simp only: acDepthPupilDia_AC_Depth group_other key_AC_Depth map_of.simps
      not_False_eq_True)

section \<open>The anterior chamber depth\<close>

lemma fromDepth_None_iff: "fromDepth s = None \<longleftrightarrow> (\<forall>i. \<not> startsWithDepth (drop i s))"
proof (induction s)
  case Nil
  then show ?case by simp
next
  case (Cons c cs)
  have "(\<forall>i. \<not> startsWithDepth (drop i (c # cs))) \<longleftrightarrow>
        \<not> startsWithDepth (c # cs) \<and> (\<forall>i. \<not> startsWithDepth (drop i cs))"
  proof
    assume a: "\<forall>i. \<not> startsWithDepth (drop i (c # cs))"
    from a[rule_format, of 0] have "\<not> startsWithDepth (c # cs)" by simp
    moreover have "\<not> startsWithDepth (drop i cs)" for i
      using a[rule_format, of "Suc i"] by simp
    ultimately show "\<not> startsWithDepth (c # cs) \<and> (\<forall>i. \<not> startsWithDepth (drop i cs))"
      by blast
  next
    assume a: "\<not> startsWithDepth (c # cs) \<and> (\<forall>i. \<not> startsWithDepth (drop i cs))"
    show "\<forall>i. \<not> startsWithDepth (drop i (c # cs))"
    proof
      fix i
      show "\<not> startsWithDepth (drop i (c # cs))"
        using a by (cases i) (simp_all del: startsWithDepth.simps)
    qed
  qed
  with Cons.IH show ?case by (simp del: startsWithDepth.simps)
qed

lemma fromDepth_first:
  assumes "startsWithDepth rest" and "\<forall>i < length pre. \<not> startsWithDepth (drop i (pre @ rest))"
  shows "fromDepth (pre @ rest) = Some rest"
  using assms
proof (induction pre)
  case Nil
  then show ?case by (cases rest) simp_all
next
  case (Cons c pre)
  from Cons.prems(2)[rule_format, of 0] have here: "\<not> startsWithDepth (c # pre @ rest)" by simp
  have "\<not> startsWithDepth (drop i (pre @ rest))" if "i < length pre" for i
    using Cons.prems(2)[rule_format, of "Suc i"] that by simp
  with Cons.IH[OF Cons.prems(1)] have "fromDepth (pre @ rest) = Some rest" by blast
  with here show ?case by (simp del: startsWithDepth.simps)
qed

lemma acDepthReference_absent:
  "\<forall>i. \<not> startsWithDepth (drop i txt) \<Longrightarrow> acDepthReference txt = js ''-''"
  using fromDepth_None_iff[of "txt"] by (simp add: acDepthReference_def)

lemma example_first_decimal:
  "firstDecimal (js '' 3.22 mm'' @ rest) = Some (js ''3.22'')"
  by (simp add: js_simps decimalAt_def isDigit_def)

lemma acDepthReference_example:
  assumes "\<forall>i < length pre + 5.
             \<not> startsWithDepth (drop i (pre @ js ''A.C. Depth(Int.): 3.22 mm'' @ post))"
  shows "acDepthReference (pre @ js ''A.C. Depth(Int.): 3.22 mm'' @ post) = js ''3.22''"
proof -
  let ?rest = "js ''Depth(Int.): 3.22 mm'' @ post"
  have split: "pre @ js ''A.C. Depth(Int.): 3.22 mm'' @ post = (pre @ js ''A.C. '') @ ?rest"
    by (simp add: js_simps)
  have len: "length (pre @ js ''A.C. '') = length pre + 5" by (simp add: js_simps)
  have starts: "startsWithDepth ?rest" by (simp add: js_simps)
  have "fromDepth ((pre @ js ''A.C. '') @ ?rest) = Some ?rest"
    using assms unfolding split by (intro fromDepth_first[OF starts]) (simp only: len)
  then have first: "fromDepth (pre @ js ''A.C. Depth(Int.): 3.22 mm'' @ post) = Some ?rest"
    by (simp only: split)
  have w: "take 150 ?rest = js ''Depth(Int.): 3.22 mm'' @ take 130 post"
    by (simp add: js_simps)
  have c: "afterColon (js ''Depth(Int.): 3.22 mm'' @ take 130 post) = Some (js '' 3.22 mm'' @ take 130 post)"
    by (simp add: js_simps afterColon_def)
  show ?thesis
    unfolding acDepthReference_def first option.case w c example_first_decimal
    by simp
qed

lemma extractAll_empty: "wanted (requestedFields []) keywords"
  by (simp add: wanted_def requestedFields_def extractAll_def)

text \<open>
  Claim C9, as stated, fails in its example: a text can contain
  \<open>A.C. Depth(Int.): 3.22 mm\<close> and yet give another value, because the window starts at
  the first \<open>Depth\<close> of the whole text, which may come earlier.
\<close>

theorem earlier_depth_counterexample:
  "str_includes (js ''Depth: 1.5 A.C. Depth(Int.): 3.22 mm'') (js ''A.C. Depth(Int.): 3.22 mm'') \<and>
   map_of (parseCorneaData (js ''Depth: 1.5 A.C. Depth(Int.): 3.22 mm'') []) (js ''AC_Depth'') =
     Some (Str (js ''1.5''))"
proof
  show "str_includes (js ''Depth: 1.5 A.C. Depth(Int.): 3.22 mm'') (js ''A.C. Depth(Int.): 3.22 mm'')"
    by (simp add: js_simps)
  have "acDepthValue (js ''Depth: 1.5 A.C. Depth(Int.): 3.22 mm'') = Str (js ''1.5'')"
    by (simp add: acDepthValue_def depthPattern_def decimalPattern_def substring_def
        substringFrom_def engine_simps)
  then show "map_of (parseCorneaData (js ''Depth: 1.5 A.C. Depth(Int.): 3.22 mm'') []) (js ''AC_Depth'') =
     Some (Str (js ''1.5''))"
    by (simp add: lookup_AC_Depth extractAll_empty)
qed

text \<open>
  Claim C9, amended. When the group of \<open>AC_Depth\<close> is wanted, the field holds: the first
  decimal number (digits, dot, digits) after the first colon of the window of 150 code
  units that starts at the first occurrence of \<open>Depth\<close> in any letter case; and the
  sentinel when \<open>Depth\<close> does not occur, the window has no colon, or no decimal number
  follows the colon in the window. A text without \<open>Depth\<close> gives the sentinel; a text
  whose first \<open>Depth\<close> is the one of \<open>A.C. Depth(Int.): 3.22 mm\<close> gives \<open>3.22\<close>.
\<close>

theorem ac_depth_field:
  assumes "wanted (requestedFields fieldNames) [''ac'', ''depth'', ''pupil'']"
  shows "map_of (parseCorneaData txt fieldNames) (js ''AC_Depth'') = Some (Str (acDepthReference txt)) \<and>
         ((\<forall>i. \<not> startsWithDepth (drop i txt)) \<longrightarrow>
            map_of (parseCorneaData txt fieldNames) (js ''AC_Depth'') = Some (Str (js ''-''))) \<and>
         ((\<forall>i < length pre + 5.
              \<not> startsWithDepth (drop i (pre @ js ''A.C. Depth(Int.): 3.22 mm'' @ post))) \<longrightarrow>
            map_of (parseCorneaData (pre @ js ''A.C. Depth(Int.): 3.22 mm'' @ post) fieldNames)
              (js ''AC_Depth'') = Some (Str (js ''3.22'')))"
  using assms
  by (simp add: lookup_AC_Depth acDepthValue_reference acDepthReference_absent
      acDepthReference_example)

theorem ac_depth_field_witness:
  "wanted (requestedFields []) [''ac'', ''depth'', ''pupil''] \<and>
   map_of (parseCorneaData (js ''A.C. Depth(Int.): 3.22 mm'') []) (js ''AC_Depth'') =
     Some (Str (js ''3.22'')) \<and>
   map_of (parseCorneaData (js ''Pupil Dia: 2.92 mm'') []) (js ''AC_Depth'') = Some (Str (js ''-'')) \<and>
   map_of (parseCorneaData (js ''a.c. DEPTH = 3.1: 2.75'') []) (js ''AC_Depth'') =
     Some (Str (acDepthReference (js ''a.c. DEPTH = 3.1: 2.75''))) \<and>
   acDepthReference (js ''a.c. DEPTH = 3.1: 2.75'') = js ''2.75''"
proof -
  have g: "wanted (requestedFields []) [''ac'', ''depth'', ''pupil'']"
    by (rule extractAll_empty)
  have 1: "\<forall>i < length ([]::jsstring) + 5.
      \<not> startsWithDepth (drop i ([] @ js ''A.C. Depth(Int.): 3.22 mm'' @ []))"
    by (simp add: js_simps less_Suc_eq numeral_eq_Suc)
  have 2: "\<forall>i. \<not> startsWithDepth (drop i (js ''Pupil Dia: 2.92 mm''))"
  proof -
    have "fromDepth (js ''Pupil Dia: 2.92 mm'') = None"
      by (simp add: js_simps)
    then show ?thesis by (rule iffD1[OF fromDepth_None_iff])
  qed
  from ac_depth_field[OF g, of "js ''A.C. Depth(Int.): 3.22 mm''" "[]" "[]"]
  have "(\<forall>i < length ([]::jsstring) + 5.
      \<not> startsWithDepth (drop i ([] @ js ''A.C. Depth(Int.): 3.22 mm'' @ []))) \<longrightarrow>
     map_of (parseCorneaData ([] @ js ''A.C. Depth(Int.): 3.22 mm'' @ []) []) (js ''AC_Depth'') =
     Some (Str (js ''3.22''))"
    by (elim conjE)
  from mp[OF this 1]
  have a: "map_of (parseCorneaData (js ''A.C. Depth(Int.): 3.22 mm'') []) (js ''AC_Depth'') =
     Some (Str (js ''3.22''))"
    by (simp only: append_Nil append_Nil2)
  from ac_depth_field[OF g, of "js ''Pupil Dia: 2.92 mm''" "[]" "[]"]
  have "(\<forall>i. \<not> startsWithDepth (drop i (js ''Pupil Dia: 2.92 mm''))) \<longrightarrow>
     map_of (parseCorneaData (js ''Pupil Dia: 2.92 mm'') []) (js ''AC_Depth'') =
     Some (Str (js ''-''))"
    by (elim conjE)
  from this[rule_format, OF 2[rule_format]]
  have b: "map_of (parseCorneaData (js ''Pupil Dia: 2.92 mm'') []) (js ''AC_Depth'') =
     Some (Str (js ''-''))" .
  from ac_depth_field[OF g, of "js ''a.c. DEPTH = 3.1: 2.75''" "[]" "[]"]
  have c: "map_of (parseCorneaData (js ''a.c. DEPTH = 3.1: 2.75'') []) (js ''AC_Depth'') =
     Some (Str (acDepthReference (js ''a.c. DEPTH = 3.1: 2.75'')))"
    by (elim conjE)
  have d: "acDepthReference (js ''a.c. DEPTH = 3.1: 2.75'') = js ''2.75''"
    by (simp add: acDepthReference_def afterColon_def decimalAt_def isDigit_def js_simps)
  from g a b c d show ?thesis by blast
qed

section \<open>The section split\<close>

lemma findIndex_Some_less: "findIndex p xs = Some i \<Longrightarrow> i < length xs"
  by (induction xs arbitrary: i) (auto split: if_splits)

lemma join_nonempty: "x \<noteq> [] \<Longrightarrow> join sep (x # xs) \<noteq> []"
  by (cases xs) simp_all

lemma textLines_nonempty: "l \<in> set (textLines t) \<Longrightarrow> l \<noteq> []"
  by (auto simp: textLines_def)

lemma join_lines_nonempty:
  assumes "ls \<noteq> []" and "\<forall>l \<in> set ls. l \<noteq> []"
  shows "join sep ls \<noteq> []"
  using assms by (cases ls) (simp_all add: join_nonempty)

lemma example_single_heading:
  "textLines (js ''Front'') = [js ''Front'']"
  "re_test frontHeading (js ''Front'')"
  "\<not> re_test backHeading (js ''Front'')"
  by (simp_all add: textLines_def frontHeading_def backHeading_def engine_simps)

text \<open>
  Claim C8, as stated, fails: a text of the single line \<open>Front\<close> has one heading found,
  the midpoint is \<open>0\<close>, and the front text is empty.
\<close>

theorem midpoint_nonempty_counterexample:
  "findIndex (re_test frontHeading) (textLines (js ''Front'')) = Some 0 \<and>
   findIndex (re_test backHeading) (textLines (js ''Front'')) = None \<and>
   sections (js ''Front'') = ([], js ''Front'')"
  unfolding sections_def example_single_heading(1)
  by (simp add: example_single_heading)

text \<open>
  Claim C8, amended. When exactly one heading is found, or both with the back heading
  not after the front heading, the line list of \<open>n\<close> lines is cut at \<open>n div 2\<close>: the
  first part, joined by spaces, is the front text and the rest the back text. The back
  text is never empty; the front text is non-empty exactly when there are at least two
  lines.
\<close>

theorem midpoint_split:
  assumes "findIndex (re_test frontHeading) (textLines txt) = frontIndex"
    and "findIndex (re_test backHeading) (textLines txt) = backIndex"
    and "(frontIndex = None) \<noteq> (backIndex = None) \<or>
         (\<exists>f b. frontIndex = Some f \<and> backIndex = Some b \<and> b \<le> f)"
  shows "sections txt =
           (join (js '' '') (take (length (textLines txt) div 2) (textLines txt)),
            join (js '' '') (drop (length (textLines txt) div 2) (textLines txt))) \<and>
         snd (sections txt) \<noteq> [] \<and>
         (fst (sections txt) \<noteq> [] \<longleftrightarrow> 2 \<le> length (textLines txt))"
proof -
  let ?lines = "textLines txt"
  let ?n = "length ?lines"
  have split: "sections txt =
      (join (js '' '') (take (?n div 2) ?lines), join (js '' '') (drop (?n div 2) ?lines))"
    using assms by (auto simp: sections_def Let_def split: option.splits)
  from assms(3) obtain i where "frontIndex = Some i \<or> backIndex = Some i" by auto
  with assms(1,2) have "i < ?n" by (auto dest: findIndex_Some_less)
  then have pos: "0 < ?n" by (cases "textLines txt") simp_all
  have ne: "\<forall>l \<in> set ls. l \<noteq> []" if "set ls \<subseteq> set ?lines" for ls
    using that textLines_nonempty by blast
  have backNe: "join (js '' '') (drop (?n div 2) ?lines) \<noteq> []"
  proof (rule join_lines_nonempty)
    from pos have "?n div 2 < ?n" by simp
    then show "drop (?n div 2) ?lines \<noteq> []" by simp
    show "\<forall>l \<in> set (drop (?n div 2) ?lines). l \<noteq> []"
      by (rule ne) (rule set_drop_subset)
  qed
  have frontNe: "join (js '' '') (take (?n div 2) ?lines) \<noteq> [] \<longleftrightarrow> 2 \<le> ?n"
  proof
    assume j: "join (js '' '') (take (?n div 2) ?lines) \<noteq> []"
    have "?n div 2 \<noteq> 0"
    proof
      assume "?n div 2 = 0"
      then have "join (js '' '') (take (?n div 2) ?lines) = []" by simp
      with j show False by contradiction
    qed
    then show "2 \<le> ?n" by arith
  next
    assume two: "2 \<le> ?n"
    show "join (js '' '') (take (?n div 2) ?lines) \<noteq> []"
    proof (rule join_lines_nonempty)
      from two have "0 < ?n div 2" by arith
      with pos show "take (?n div 2) ?lines \<noteq> []" by (cases "textLines txt") auto
      show "\<forall>l \<in> set (take (?n div 2) ?lines). l \<noteq> []"
        by (rule ne) (rule set_take_subset)
    qed
  qed
  from split backNe frontNe show ?thesis by simp
qed

lemma example_two_lines:
  "textLines (js ''Front\<newline>Rh 7.71'') = [js ''Front'', js ''Rh 7.71'']"
  "\<not> re_test backHeading (js ''Rh 7.71'')"
  by (simp_all add: textLines_def backHeading_def engine_simps)

theorem midpoint_split_witness:
  "findIndex (re_test frontHeading) (textLines (js ''Front\<newline>Rh 7.71'')) = Some 0 \<and>
   findIndex (re_test backHeading) (textLines (js ''Front\<newline>Rh 7.71'')) = None \<and>
   sections (js ''Front\<newline>Rh 7.71'') = (js ''Front'', js ''Rh 7.71'') \<and>
   snd (sections (js ''Front\<newline>Rh 7.71'')) \<noteq> []"
proof -
  have f: "findIndex (re_test frontHeading) (textLines (js ''Front\<newline>Rh 7.71'')) = Some 0"
    unfolding example_two_lines(1) by (simp add: example_single_heading)
  have b: "findIndex (re_test backHeading) (textLines (js ''Front\<newline>Rh 7.71'')) = None"
    unfolding example_two_lines(1) by (simp add: example_single_heading example_two_lines(2))
  have h: "(Some (0::nat) = None) \<noteq> ((None::nat option) = None) \<or>
      (\<exists>f b. Some (0::nat) = Some f \<and> (None::nat option) = Some b \<and> b \<le> f)"
    by simp
  note s = midpoint_split[OF f b h]
  from s have "sections (js ''Front\<newline>Rh 7.71'') =
      (join (js '' '') (take (length [js ''Front'', js ''Rh 7.71''] div 2) [js ''Front'', js ''Rh 7.71'']),
       join (js '' '') (drop (length [js ''Front'', js ''Rh 7.71''] div 2) [js ''Front'', js ''Rh 7.71'']))"
    unfolding example_two_lines(1) by (rule conjunct1)
  then have "sections (js ''Front\<newline>Rh 7.71'') = (js ''Front'', js ''Rh 7.71'')"
    by simp
  moreover from s have "snd (sections (js ''Front\<newline>Rh 7.71'')) \<noteq> []"
    by blast
  ultimately show ?thesis using f b by blast
qed

section \<open>The back radius\<close>













lemma requestedFields_rh: "requestedFields (js ''rh'') = [js ''rh'']"
  by (simp add: requestedFields_def js_simps trim_def isSpace_def toLowerCase_def lowerUnit_def)

lemma wanted_rh:
  "wanted [js ''rh''] [''rh'', ''radius'']"
  "\<not> wanted [js ''rh''] [''k'', ''keratometry'']"
  "\<not> wanted [js ''rh''] [''axis'', ''astig'']"
  "\<not> wanted [js ''rh''] [''q'']"
  "\<not> wanted [js ''rh''] [''rper'', ''rmin'']"
  "\<not> wanted [js ''rh''] [''pachy'']"
  "\<not> wanted [js ''rh''] [''ac'', ''depth'', ''pupil'']"
  by (simp_all add: wanted_def extractAll_def js_simps)

lemma parseCorneaData_rh:
  "parseCorneaData txt (js ''rh'') =
     puts [(''Back_Rh'', extractValueWithNegative (snd (sections txt)) (labelled ''Rh'')),
           (''Back_Rv'', extractValueWithNegative (snd (sections txt)) (labelled ''Rv'')),
           (''Back_Rm'', extractValueWithNegative (snd (sections txt)) (labelled ''Rm''))]
       (puts [(''Front_Rh'', extractValue (fst (sections txt)) (labelled ''Rh'')),
              (''Front_Rv'', extractValue (fst (sections txt)) (labelled ''Rv'')),
              (''Front_Rm'', extractValue (fst (sections txt)) (labelled ''Rm''))] [])"
  unfolding parseCorneaData_def Let_def requestedFields_rh comp_def
    frontRadius_def frontKeratometry_def frontAxisAstig_def
    frontQval_def frontRperRmin_def backRadius_def backKeratometry_def backAxisAstig_def
    backQval_def backRperRmin_def pachymetry_def acDepthPupilDia_def
  by (simp only: wanted_rh if_True if_False)








lemma plain_example_sections: "sections (js ''Rh: 6.10'') = (js ''Rh: 6.10'', js ''Rh: 6.10'')"
proof -
  have "textLines (js ''Rh: 6.10'') = [js ''Rh: 6.10'']"
    by (simp add: textLines_def js_simps trim_def isSpace_def)
  moreover have "\<not> re_test frontHeading (js ''Rh: 6.10'')" "\<not> re_test backHeading (js ''Rh: 6.10'')"
    by (simp_all add: frontHeading_def backHeading_def engine_simps)
  ultimately show ?thesis by (simp add: sections_def)
qed

lemma plain_example_values:
  "extractValue (js ''Rh: 6.10'') (labelled ''Rh'') = Str (js ''6.10'')"
  "extractValue (js ''Rh: 6.10'') (labelled ''Rv'') = Str (js ''-'')"
  "extractValue (js ''Rh: 6.10'') (labelled ''Rm'') = Str (js ''-'')"
  "extractValueWithNegative (js ''Rh: 6.10'') (labelled ''Rh'') = Str (js ''6.10'')"
  "extractValueWithNegative (js ''Rh: 6.10'') (labelled ''Rv'') = Str (js ''-'')"
  "extractValueWithNegative (js ''Rh: 6.10'') (labelled ''Rm'') = Str (js ''-'')"
  by (simp_all add: extractValue_def extractValueWithNegative_def labelled_def engine_simps)

text \<open>An unsigned back radius is read.\<close>

lemma plain_back_radius_example:
  "map_of (parseCorneaData (js ''Rh: 6.10'') (js ''rh'')) (js ''Back_Rh'') = Some (Str (js ''6.10''))"
  unfolding parseCorneaData_rh plain_example_sections fst_conv snd_conv plain_example_values
  by (simp add: puts_def update_conv' js_simps)


end
